theory Spec2Isabelle
  imports Complex_Main "HOL-Library.Word"
begin

unbundle bit_operations_syntax

section \<open>Numbers of the C++ code\<close>

text \<open>
  \<open>qreal\<close> is \<open>double\<close>, as Qt defines it on desktop platforms. A finite double is modelled
  by the rational number it denotes and every arithmetic operation rounds its exact result to
  the nearest binary64 value, ties to even (53 bits of precision, subnormals below
  \<open>2\<^sup>-\<^sup>1\<^sup>0\<^sup>2\<^sup>2\<close>). Infinities and NaN are not modelled: none of the operations below overflows
  or divides by zero on the inputs considered.
\<close>

type_synonym qreal = rat

fun bitlen :: "nat \<Rightarrow> nat" where
  "bitlen n = (if n = 0 then 0 else Suc (bitlen (n div 2)))"

definition ilog2 :: "rat \<Rightarrow> int" where
  \<comment> \<open>\<open>\<lfloor>log\<^sub>2 x\<rfloor>\<close> for positive \<open>x\<close>\<close>
  "ilog2 x = (let (p, q) = quotient_of x;
                  k = int (bitlen (nat p)) - int (bitlen (nat q))
              in if 2 powi k \<le> x then k else k - 1)"

definition roundHalfEven :: "rat \<Rightarrow> int" where
  "roundHalfEven x = (let f = \<lfloor>x\<rfloor>; d = x - of_int f
                      in if d < 1/2 then f else if 1/2 < d then f + 1
                         else if even f then f else f + 1)"

definition fl64 :: "rat \<Rightarrow> qreal" where
  "fl64 x = (if x = 0 then 0
             else let e = max (ilog2 \<bar>x\<bar> - 52) (- 1074)
                  in of_int (roundHalfEven (x / 2 powi e)) * 2 powi e)"

definition dadd :: "qreal \<Rightarrow> qreal \<Rightarrow> qreal" where
  "dadd a b = fl64 (a + b)"

definition dsub :: "qreal \<Rightarrow> qreal \<Rightarrow> qreal" where
  "dsub a b = fl64 (a - b)"

definition dmul :: "qreal \<Rightarrow> qreal \<Rightarrow> qreal" where
  "dmul a b = fl64 (a * b)"

definition ddiv :: "qreal \<Rightarrow> qreal \<Rightarrow> qreal" where
  "ddiv a b = fl64 (a / b)"

definition of_int32 :: "int \<Rightarrow> qreal" where
  \<comment> \<open>\<open>static_cast<qreal>(i)\<close> and the implicit conversion of an \<open>int\<close>: exact, an \<open>int\<close> has 32 bits\<close>
  "of_int32 i = of_int i"

definition to_int :: "qreal \<Rightarrow> int" where
  \<comment> \<open>\<open>int(d)\<close>: truncation towards zero\<close>
  "to_int d = (if 0 \<le> d then \<lfloor>d\<rfloor> else \<lceil>d\<rceil>)"

definition qFloor :: "qreal \<Rightarrow> int" where
  "qFloor v = \<lfloor>v\<rfloor>"

definition qCeil :: "qreal \<Rightarrow> int" where
  "qCeil v = \<lceil>v\<rceil>"

definition qRound :: "qreal \<Rightarrow> int" where
  \<comment> \<open>\<open>d >= 0.0 ? int(d + 0.5) : int(d - int(d-1) + 0.5) + int(d-1)\<close>\<close>
  "qRound d = (if 0 \<le> d then to_int (dadd d (1/2))
               else to_int (dadd (dsub d (of_int32 (to_int (dsub d 1)))) (1/2))
                    + to_int (dsub d 1))"

section \<open>Geometry, render parameters, images\<close>

record QRect =
  rect_x :: int
  rect_y :: int
  rect_width :: int
  rect_height :: int

record QRectF =
  rectf_x :: qreal
  rectf_y :: qreal
  rectf_width :: qreal
  rectf_height :: qreal

record QPointF =
  pt_x :: qreal
  pt_y :: qreal

text \<open>
  Modelled from the spec: the declarations of \<open>Rotation\<close>, \<open>RenderResolution\<close> and \<open>RenderParam\<close>
  and the comparison of two \<open>RenderParam\<close> are in a header that is not among the sources. The
  fields are those the sources read, with the types the sources use them at (\<open>%d\<close> and \<open>%f\<close> in
  \<open>pixmapKey\<close>, the \<open>qreal\<close> products of \<open>scaledResolutionX\<close>); the rotation is one of the
  four cardinal values and equality is structural, as the specification has them.
\<close>

datatype Rotation = RotateBy0 | RotateBy90 | RotateBy180 | RotateBy270

record RenderResolution =
  resolutionX :: int
  resolutionY :: int
  devicePixelRatio :: qreal

record RenderParam =
  resolution :: RenderResolution
  scaleFactor :: qreal
  rotation :: Rotation
  invertColors :: bool

type_synonym QRgb = "32 word"

record QColor =
  col_alpha :: nat
  col_red :: nat
  col_green :: nat
  col_blue :: nat

definition qRed :: "QRgb \<Rightarrow> nat" where
  "qRed rgb = unat (drop_bit 16 rgb AND 0xff)"

definition qGreen :: "QRgb \<Rightarrow> nat" where
  "qGreen rgb = unat (drop_bit 8 rgb AND 0xff)"

definition qBlue :: "QRgb \<Rightarrow> nat" where
  "qBlue rgb = unat (rgb AND 0xff)"

definition QColor_fromRgb :: "QRgb \<Rightarrow> QColor" where
  \<comment> \<open>the implicit \<open>QColor(QRgb)\<close> of \<open>paperColor != image.pixel(x, y)\<close>: the alpha channel of the
      pixel is ignored, the colour is opaque; channels are stored in 16 bits\<close>
  "QColor_fromRgb rgb = \<lparr>col_alpha = 0xffff, col_red = qRed rgb * 0x101,
                          col_green = qGreen rgb * 0x101, col_blue = qBlue rgb * 0x101\<rparr>"

definition Qt_white :: QColor where
  "Qt_white = \<lparr>col_alpha = 0xffff, col_red = 0xffff, col_green = 0xffff, col_blue = 0xffff\<rparr>"

record QImage =
  img_width :: int
  img_height :: int
  img_depth :: int
  img_devicePixelRatio :: qreal
  img_pixel :: "int \<Rightarrow> int \<Rightarrow> QRgb"

definition QImage_isNull :: "QImage \<Rightarrow> bool" where
  \<comment> \<open>a null QImage has width and height 0, every other one has both positive\<close>
  "QImage_isNull img = (img_width img \<le> 0 \<or> img_height img \<le> 0)"

definition invertPixels :: "QImage \<Rightarrow> QImage" where
  \<comment> \<open>\<open>QImage::invertPixels(InvertRgb)\<close>: the colour channels are inverted, alpha is kept\<close>
  "invertPixels img = img\<lparr>img_pixel := (\<lambda>x y. img_pixel img x y XOR 0x00ffffff)\<rparr>"

section \<open>rendertask.cpp\<close>

definition NotCanceled :: int where "NotCanceled = 0"
definition CanceledNormally :: int where "CanceledNormally = 1"
definition CanceledForcibly :: int where "CanceledForcibly = 2"

text \<open>The \<open>QAtomicInt\<close> is modelled by the \<open>int\<close> it holds; a store returns the new value.\<close>

definition setCancellation :: "int \<Rightarrow> bool \<Rightarrow> int" where
  "setCancellation wasCanceled force = (if force then CanceledForcibly else CanceledNormally)"

definition resetCancellation :: "int \<Rightarrow> int" where
  "resetCancellation wasCanceled = NotCanceled"

definition testCancellation :: "int \<Rightarrow> bool \<Rightarrow> bool" where
  "testCancellation wasCanceled prefetch =
     (if prefetch then wasCanceled = CanceledForcibly else wasCanceled \<noteq> NotCanceled)"

definition testAndSetRelaxed :: "int \<Rightarrow> int \<Rightarrow> int \<Rightarrow> bool \<times> int" where
  \<comment> \<open>\<open>QAtomicInt::testAndSetRelaxed(expected, new)\<close>, with the value held before and after\<close>
  "testAndSetRelaxed v expectedValue newValue =
     (if v = expectedValue then (True, newValue) else (False, v))"

definition testCancellation_qt4 :: "int \<Rightarrow> bool \<Rightarrow> bool \<times> int" where
  \<comment> \<open>the branch of \<open>testCancellation\<close> compiled before Qt 5\<close>
  "testCancellation_qt4 wasCanceled prefetch =
     (if prefetch then testAndSetRelaxed wasCanceled CanceledForcibly CanceledForcibly
      else (let (r, v) = testAndSetRelaxed wasCanceled NotCanceled NotCanceled in (\<not> r, v)))"

definition loadWasCanceled :: "int \<Rightarrow> int" where
  "loadWasCanceled wasCanceled = wasCanceled"

definition scaledResolutionX :: "RenderParam \<Rightarrow> qreal" where
  "scaledResolutionX renderParam =
     dmul (dmul (devicePixelRatio (resolution renderParam))
                (of_int32 (resolutionX (resolution renderParam))))
          (scaleFactor renderParam)"

definition scaledResolutionY :: "RenderParam \<Rightarrow> qreal" where
  "scaledResolutionY renderParam =
     dmul (dmul (devicePixelRatio (resolution renderParam))
                (of_int32 (resolutionY (resolution renderParam))))
          (scaleFactor renderParam)"

definition roundDown :: "qreal \<Rightarrow> qreal \<Rightarrow> qreal \<Rightarrow> qreal" where
  "roundDown v precision tolerance =
     ddiv (of_int32 (qFloor (dmul (dmul (dsub 1 tolerance) v) precision))) precision"

definition roundUp :: "qreal \<Rightarrow> qreal \<Rightarrow> qreal \<Rightarrow> qreal" where
  "roundUp v precision tolerance =
     ddiv (of_int32 (qCeil (dmul (dmul (dadd 1 tolerance) v) precision))) precision"

function columnHasPaperColor_from :: "int \<Rightarrow> int \<Rightarrow> QColor \<Rightarrow> QImage \<Rightarrow> bool" where
  "columnHasPaperColor_from y x paperColor img =
     (if y < img_height img
      then (if paperColor \<noteq> QColor_fromRgb (img_pixel img x y) then False
            else columnHasPaperColor_from (y + 1) x paperColor img)
      else True)"
  by pat_completeness auto
termination
  by (relation "measure (\<lambda>(y, x, paperColor, img). nat (img_height img - y))") auto

definition columnHasPaperColor :: "int \<Rightarrow> QColor \<Rightarrow> QImage \<Rightarrow> bool" where
  "columnHasPaperColor x paperColor img = columnHasPaperColor_from 0 x paperColor img"

function rowHasPaperColor_from :: "int \<Rightarrow> int \<Rightarrow> QColor \<Rightarrow> QImage \<Rightarrow> bool" where
  "rowHasPaperColor_from x y paperColor img =
     (if x < img_width img
      then (if paperColor \<noteq> QColor_fromRgb (img_pixel img x y) then False
            else rowHasPaperColor_from (x + 1) y paperColor img)
      else True)"
  by pat_completeness auto
termination
  by (relation "measure (\<lambda>(x, y, paperColor, img). nat (img_width img - x))") auto

definition rowHasPaperColor :: "int \<Rightarrow> QColor \<Rightarrow> QImage \<Rightarrow> bool" where
  "rowHasPaperColor y paperColor img = rowHasPaperColor_from 0 y paperColor img"

definition cropBoxPrecision :: qreal where
  "cropBoxPrecision = 100"

definition cropBoxTolerance :: qreal where
  \<comment> \<open>the literal \<open>0.05\<close>\<close>
  "cropBoxTolerance = fl64 (5 / 100)"

text \<open>The four scanning loops of \<open>trimMargins\<close>, each returning the final value of its counter.\<close>

function scanLeft :: "int \<Rightarrow> QColor \<Rightarrow> QImage \<Rightarrow> int" where
  "scanLeft left paperColor img =
     (if left < img_width img
      then (if \<not> columnHasPaperColor left paperColor img then left
            else scanLeft (left + 1) paperColor img)
      else left)"
  by pat_completeness auto
termination
  by (relation "measure (\<lambda>(left, paperColor, img). nat (img_width img - left))") auto

function scanRight :: "int \<Rightarrow> int \<Rightarrow> QColor \<Rightarrow> QImage \<Rightarrow> int" where
  "scanRight right left paperColor img =
     (if left \<le> right
      then (if \<not> columnHasPaperColor right paperColor img then right
            else scanRight (right - 1) left paperColor img)
      else right)"
  by pat_completeness auto
termination
  by (relation "measure (\<lambda>(right, left, paperColor, img). nat (right - left + 1))") auto

function scanTop :: "int \<Rightarrow> QColor \<Rightarrow> QImage \<Rightarrow> int" where
  "scanTop topv paperColor img =
     (if topv < img_height img
      then (if \<not> rowHasPaperColor topv paperColor img then topv
            else scanTop (topv + 1) paperColor img)
      else topv)"
  by pat_completeness auto
termination
  by (relation "measure (\<lambda>(topv, paperColor, img). nat (img_height img - topv))") auto

function scanBottom :: "int \<Rightarrow> int \<Rightarrow> QColor \<Rightarrow> QImage \<Rightarrow> int" where
  "scanBottom bottom topv paperColor img =
     (if topv \<le> bottom
      then (if \<not> rowHasPaperColor bottom paperColor img then bottom
            else scanBottom (bottom - 1) topv paperColor img)
      else bottom)"
  by pat_completeness auto
termination
  by (relation "measure (\<lambda>(bottom, topv, paperColor, img). nat (bottom - topv + 1))") auto

definition trimMargins :: "QColor \<Rightarrow> QImage \<Rightarrow> QRectF" where
  "trimMargins paperColor img =
     (if QImage_isNull img
      then \<lparr>rectf_x = 0, rectf_y = 0, rectf_width = 1, rectf_height = 1\<rparr>
      else let width = img_width img;
               height = img_height img;
               left = scanLeft 0 paperColor img;
               right = scanRight (width - 1) left paperColor img;
               topv = scanTop 0 paperColor img;
               bottom = scanBottom (height - 1) topv paperColor img
           in \<lparr>rectf_x = roundDown (ddiv (of_int32 left) (of_int32 width))
                                    cropBoxPrecision cropBoxTolerance,
               rectf_y = roundDown (ddiv (of_int32 topv) (of_int32 height))
                                    cropBoxPrecision cropBoxTolerance,
               rectf_width = roundUp (ddiv (of_int32 (right - left + 1)) (of_int32 width))
                                     cropBoxPrecision cropBoxTolerance,
               rectf_height = roundUp (ddiv (of_int32 (bottom - topv + 1)) (of_int32 height))
                                      cropBoxPrecision cropBoxTolerance\<rparr>)"

text \<open>
  The page is the external rasteriser: \<open>render(resolutionX, resolutionY, rotation, rect)\<close>.
\<close>

type_synonym Page = "qreal \<Rightarrow> qreal \<Rightarrow> Rotation \<Rightarrow> QRect \<Rightarrow> QImage"

record RenderTask =
  m_isRunning :: bool
  m_wasCanceled :: int
  m_renderParam :: RenderParam
  m_rect :: QRect
  m_prefetch :: bool

datatype Signal =
    imageReady RenderParam QRect bool QImage
  | cropBoxReady RenderParam QRect QRectF
  | finished

definition isRunning :: "RenderTask \<Rightarrow> bool" where
  "isRunning task = m_isRunning task"

definition wasCanceled :: "RenderTask \<Rightarrow> bool" where
  "wasCanceled task = (loadWasCanceled (m_wasCanceled task) \<noteq> NotCanceled)"

definition wasCanceledNormally :: "RenderTask \<Rightarrow> bool" where
  "wasCanceledNormally task = (loadWasCanceled (m_wasCanceled task) = CanceledNormally)"

definition wasCanceledForcibly :: "RenderTask \<Rightarrow> bool" where
  "wasCanceledForcibly task = (loadWasCanceled (m_wasCanceled task) = CanceledForcibly)"

definition finish :: "RenderTask \<Rightarrow> Signal list \<Rightarrow> Signal list \<times> RenderTask" where
  \<comment> \<open>emits \<open>finished\<close> after the signals emitted so far and clears the running flag\<close>
  "finish task emitted = (emitted @ [finished], task\<lparr>m_isRunning := False\<rparr>)"

text \<open>
  \<open>run\<close> executes on a worker thread while other threads may store to \<open>m_wasCanceled\<close>. The
  three arguments \<open>w1\<close>, \<open>w2\<close>, \<open>w3\<close> are the values the flag holds when the first, second and
  third checkpoint load it. The result is the list of signals in the order of emission and
  the task afterwards. The device pixel ratio of the image is set as for Qt 5.1 and later; the
  source parameter \<open>image\<close> is written \<open>img\<close> and the counter \<open>top\<close> is written \<open>topv\<close>.
\<close>

definition run :: "RenderTask \<Rightarrow> Page \<Rightarrow> int \<Rightarrow> int \<Rightarrow> int \<Rightarrow> Signal list \<times> RenderTask" where
  "run task m_page w1 w2 w3 =
     (if testCancellation w1 (m_prefetch task) then finish task []
      else
        let img = m_page (scaledResolutionX (m_renderParam task))
                           (scaledResolutionY (m_renderParam task))
                           (rotation (m_renderParam task)) (m_rect task);
            img = img\<lparr>img_devicePixelRatio :=
                             devicePixelRatio (resolution (m_renderParam task))\<rparr>
        in if testCancellation w2 (m_prefetch task) then finish task []
           else
             let img = (if invertColors (m_renderParam task) then invertPixels img
                          else img);
                 emitted = [imageReady (m_renderParam task) (m_rect task) (m_prefetch task) img]
             in if True
                then (if testCancellation w3 (m_prefetch task) then finish task emitted
                      else let cropBox = trimMargins Qt_white img
                           in finish task
                                (emitted @ [cropBoxReady (m_renderParam task) (m_rect task) cropBox]))
                else finish task emitted)"

definition start :: "RenderTask \<Rightarrow> RenderParam \<Rightarrow> QRect \<Rightarrow> bool \<Rightarrow> RenderTask list
                    \<Rightarrow> RenderTask \<times> RenderTask list" where
  \<comment> \<open>the last argument and result is the queue of \<open>QThreadPool::globalInstance()\<close>, to which
      \<open>start(this)\<close> appends the task\<close>
  "start task renderParam rect prefetch pool =
     (let task = task\<lparr>m_renderParam := renderParam, m_rect := rect, m_prefetch := prefetch\<rparr>;
          task = task\<lparr>m_isRunning := True\<rparr>;
          task = task\<lparr>m_wasCanceled := resetCancellation (m_wasCanceled task)\<rparr>
      in (task, pool @ [task]))"

definition cancel :: "RenderTask \<Rightarrow> bool \<Rightarrow> RenderTask" where
  "cancel task force = task\<lparr>m_wasCanceled := setCancellation (m_wasCanceled task) force\<rparr>"

section \<open>Pixmaps and the shared cache\<close>

record QPixmap =
  pm_width :: int
  pm_height :: int
  pm_depth :: int
  pm_pixel :: "int \<Rightarrow> int \<Rightarrow> QRgb"

definition QPixmap_null :: QPixmap where
  \<comment> \<open>\<open>QPixmap()\<close>\<close>
  "QPixmap_null = \<lparr>pm_width = 0, pm_height = 0, pm_depth = 0, pm_pixel = (\<lambda>x y. 0)\<rparr>"

definition QPixmap_isNull :: "QPixmap \<Rightarrow> bool" where
  "QPixmap_isNull pixmap = (pm_width pixmap \<le> 0 \<or> pm_height pixmap \<le> 0)"

definition QPixmap_fromImage :: "QImage \<Rightarrow> QPixmap" where
  \<comment> \<open>the pixmap keeps the size, the depth and the pixels of the image\<close>
  "QPixmap_fromImage img =
     \<lparr>pm_width = img_width img, pm_height = img_height img, pm_depth = img_depth img,
      pm_pixel = img_pixel img\<rparr>"

text \<open>
  An \<open>int\<close> of the C++ code has 32 bits. The products of the cost expressions wrap around as
  on two's complement hardware: \<open>8192 * 8192 * 32\<close> is \<open>-2147483648\<close>.
\<close>

definition wrap32 :: "int \<Rightarrow> int" where
  "wrap32 i = (i + 2147483648) mod 4294967296 - 2147483648"

definition mul32 :: "int \<Rightarrow> int \<Rightarrow> int" where
  \<comment> \<open>the \<open>*\<close> of C++ on \<open>int\<close>\<close>
  "mul32 a b = wrap32 (a * b)"

definition int_div :: "int \<Rightarrow> int \<Rightarrow> int" where
  \<comment> \<open>the \<open>/\<close> of C++ on \<open>int\<close>: the quotient is truncated towards zero\<close>
  "int_div a b = sgn a * sgn b * (\<bar>a\<bar> div \<bar>b\<bar>)"

text \<open>
  Modelled from the spec: the shared tile cache is a \<open>QCache\<close> of the Qt library, which is not
  part of the sources. It is the cost-bounded least-recently-used cache of the specification:
  \<open>insert\<close> replaces an entry of the same key, does not admit an entry whose cost exceeds the
  maximum, and otherwise evicts least-recently-used entries until the new entry fits;
  \<open>object\<close> refreshes the recency of the entry it returns; \<open>setMaxCost\<close> updates the bound,
  which takes effect at the next insertion. The entries are kept most recently used first.
\<close>

type_synonym Key = "nat \<times> string"

record QCache =
  mx :: int
  entries :: "(Key \<times> QPixmap \<times> int) list"

definition QCache_empty :: QCache where
  \<comment> \<open>a \<open>QCache\<close> is constructed with the maximum cost 100\<close>
  "QCache_empty = \<lparr>mx = 100, entries = []\<rparr>"

definition totalCost_of :: "(Key \<times> QPixmap \<times> int) list \<Rightarrow> int" where
  "totalCost_of es = sum_list (map (\<lambda>e. snd (snd e)) es)"

definition QCache_totalCost :: "QCache \<Rightarrow> int" where
  "QCache_totalCost c = totalCost_of (entries c)"

definition QCache_maxCost :: "QCache \<Rightarrow> int" where
  "QCache_maxCost c = mx c"

definition QCache_contains :: "QCache \<Rightarrow> Key \<Rightarrow> bool" where
  "QCache_contains c k = (k \<in> set (map fst (entries c)))"

definition QCache_remove :: "QCache \<Rightarrow> Key \<Rightarrow> QCache" where
  "QCache_remove c k = c\<lparr>entries := filter (\<lambda>e. fst e \<noteq> k) (entries c)\<rparr>"

function trim_entries :: "int \<Rightarrow> (Key \<times> QPixmap \<times> int) list \<Rightarrow> (Key \<times> QPixmap \<times> int) list" where
  "trim_entries m es =
     (if es \<noteq> [] \<and> m < totalCost_of es then trim_entries m (butlast es) else es)"
  by pat_completeness auto
termination
  by (relation "measure (\<lambda>(m, es). length es)") auto

definition QCache_trim :: "QCache \<Rightarrow> int \<Rightarrow> QCache" where
  "QCache_trim c m = c\<lparr>entries := trim_entries m (entries c)\<rparr>"

definition QCache_setMaxCost :: "QCache \<Rightarrow> int \<Rightarrow> QCache" where
  \<comment> \<open>nothing is evicted before the next insertion\<close>
  "QCache_setMaxCost c m = c\<lparr>mx := m\<rparr>"

definition QCache_insert :: "QCache \<Rightarrow> Key \<Rightarrow> QPixmap \<Rightarrow> int \<Rightarrow> QCache" where
  "QCache_insert c k pixmap cost =
     (let c = QCache_remove c k
      in if mx c < cost then c
         else let c = QCache_trim c (mx c - cost)
              in c\<lparr>entries := (k, pixmap, cost) # entries c\<rparr>)"

definition QCache_object :: "QCache \<Rightarrow> Key \<Rightarrow> QPixmap option \<times> QCache" where
  "QCache_object c k =
     (case find (\<lambda>e. fst e = k) (entries c) of
        None \<Rightarrow> (None, c)
      | Some e \<Rightarrow> (Some (fst (snd e)),
                   c\<lparr>entries := e # filter (\<lambda>e'. fst e' \<noteq> k) (entries c)\<rparr>))"

section \<open>tileitem.cpp\<close>

text \<open>\<open>QString().sprintf\<close> with the conversions \<open>%d\<close> and \<open>%f\<close> (six digits after the point).\<close>

definition digit_char :: "nat \<Rightarrow> char" where
  "digit_char d = ''0123456789'' ! d"

fun digits10 :: "nat \<Rightarrow> string" where
  "digits10 n = (if n < 10 then [digit_char n] else digits10 (n div 10) @ [digit_char (n mod 10)])"

definition fmt_d :: "int \<Rightarrow> string" where
  "fmt_d i = (if i < 0 then CHR ''-'' # digits10 (nat (- i)) else digits10 (nat i))"

definition fmt_f :: "qreal \<Rightarrow> string" where
  "fmt_f v =
     (let s = nat (roundHalfEven (\<bar>v\<bar> * 1000000));
          frac = digits10 (s mod 1000000)
      in (if v < 0 then [CHR ''-''] else []) @ digits10 (s div 1000000) @ [CHR ''.'']
         @ replicate (6 - length frac) CHR ''0'' @ frac)"

definition Rotation_value :: "Rotation \<Rightarrow> int" where
  "Rotation_value r = (case r of RotateBy0 \<Rightarrow> 0 | RotateBy90 \<Rightarrow> 1 | RotateBy180 \<Rightarrow> 2
                                | RotateBy270 \<Rightarrow> 3)"

text \<open>
  A \<open>PageItem*\<close> is modelled by the page item it points to, \<open>page_addr\<close> being the address that
  the pointer comparison of the cache key sees. The members of \<open>PageItem\<close> and \<open>TileItem\<close> are
  those the member functions of the tile use; \<open>m_rect\<close> is a \<open>QRect\<close>, as it is compared with the
  \<open>QRect\<close> of a completion and handed to \<open>start\<close>.
\<close>

record PageItem =
  page_addr :: nat
  m_renderParam :: RenderParam
  m_page :: Page

record TileItem =
  parentPage :: PageItem
  m_rect :: QRect
  m_pixmapError :: bool
  m_pixmap :: QPixmap
  m_obsoletePixmap :: QPixmap
  m_renderTask :: RenderTask

text \<open>
  The state a member function of a tile works on: the tile, the static cache \<open>s_cache\<close> shared
  by all tiles, and the queue of the global thread pool.
\<close>

record State =
  tile :: TileItem
  s_cache :: QCache
  threadPool :: "RenderTask list"

definition TileItem_new :: "PageItem \<Rightarrow> RenderParam \<Rightarrow> int \<Rightarrow> QCache \<Rightarrow> TileItem \<times> QCache" where
  \<comment> \<open>the constructor; \<open>cacheSize\<close> is \<open>s_settings->pageItem().cacheSize()\<close> and the second
      argument the default-constructed \<open>RenderParam\<close> of the new task\<close>
  "TileItem_new parent defaultParam cacheSize cache =
     (\<lparr>parentPage = parent,
       m_rect = \<lparr>rect_x = 0, rect_y = 0, rect_width = 0, rect_height = 0\<rparr>,
       m_pixmapError = False,
       m_pixmap = QPixmap_null,
       m_obsoletePixmap = QPixmap_null,
       m_renderTask = \<lparr>m_isRunning = False, m_wasCanceled = NotCanceled,
                        RenderTask.m_renderParam = defaultParam,
                        RenderTask.m_rect = \<lparr>rect_x = 0, rect_y = 0, rect_width = 0, rect_height = 0\<rparr>,
                        m_prefetch = False\<rparr>\<rparr>,
      QCache_setMaxCost cache cacheSize)"

definition pixmapKey :: "TileItem \<Rightarrow> Key" where
  "pixmapKey t =
     (let pageitem = parentPage t;
          keystr = fmt_d (resolutionX (resolution (m_renderParam pageitem))) @ '',''
                 @ fmt_d (resolutionY (resolution (m_renderParam pageitem))) @ '',''
                 @ fmt_f (scaleFactor (m_renderParam pageitem)) @ '',''
                 @ fmt_d (Rotation_value (rotation (m_renderParam pageitem))) @ '',''
                 @ fmt_d (of_bool (invertColors (m_renderParam pageitem))) @ '',''
                 @ fmt_d (qRound (of_int32 (rect_x (m_rect t)))) @ '',''
                 @ fmt_d (qRound (of_int32 (rect_y (m_rect t)))) @ '',''
                 @ fmt_d (qRound (of_int32 (rect_width (m_rect t)))) @ '',''
                 @ fmt_d (qRound (of_int32 (rect_height (m_rect t))))
      in (page_addr pageitem, keystr))"

definition startRender :: "State \<Rightarrow> bool \<Rightarrow> int \<times> State" where
  \<comment> \<open>the call of the source also passes \<open>parentPage()->m_page\<close>, which \<open>start\<close> of
      rendertask.cpp does not take: there the page is given to the constructor of the task\<close>
  "startRender st prefetch =
     (if m_pixmapError (tile st) \<or> isRunning (m_renderTask (tile st))
         \<or> (prefetch \<and> QCache_contains (s_cache st) (pixmapKey (tile st)))
      then (0, st)
      else let (task, pool) = start (m_renderTask (tile st))
                                    (m_renderParam (parentPage (tile st)))
                                    (m_rect (tile st)) prefetch (threadPool st)
           in (1, st\<lparr>tile := (tile st)\<lparr>m_renderTask := task\<rparr>, threadPool := pool\<rparr>))"

definition refresh :: "State \<Rightarrow> bool \<Rightarrow> bool \<Rightarrow> State" where
  \<comment> \<open>the third argument is \<open>s_settings->pageItem().keepObsoletePixmaps()\<close>\<close>
  "refresh st keepObsoletePixmaps settingsKeepObsoletePixmaps =
     (let st = (if keepObsoletePixmaps \<and> settingsKeepObsoletePixmaps
                then (if QCache_contains (s_cache st) (pixmapKey (tile st))
                      then (case QCache_object (s_cache st) (pixmapKey (tile st)) of
                              (Some pixmap, cache) \<Rightarrow>
                                st\<lparr>tile := (tile st)\<lparr>m_obsoletePixmap := pixmap\<rparr>,
                                   s_cache := cache\<rparr>
                            | (None, cache) \<Rightarrow> st\<lparr>s_cache := cache\<rparr>)
                      else st)
                else st\<lparr>tile := (tile st)\<lparr>m_obsoletePixmap := QPixmap_null\<rparr>\<rparr>);
          t = tile st;
          t = t\<lparr>m_renderTask := cancel (m_renderTask t) True\<rparr>;
          t = t\<lparr>m_pixmapError := False\<rparr>;
          t = t\<lparr>m_pixmap := QPixmap_null\<rparr>
      in st\<lparr>tile := t\<rparr>)"

definition cancelRender :: "State \<Rightarrow> State" where
  "cancelRender st =
     (let t = tile st;
          t = t\<lparr>m_renderTask := cancel (m_renderTask t) False\<rparr>;
          t = t\<lparr>m_pixmap := QPixmap_null\<rparr>;
          t = t\<lparr>m_obsoletePixmap := QPixmap_null\<rparr>
      in st\<lparr>tile := t\<rparr>)"

definition on_renderTask_imageReady :: "State \<Rightarrow> RenderParam \<Rightarrow> QRect \<Rightarrow> bool \<Rightarrow> QImage \<Rightarrow> State" where
  "on_renderTask_imageReady st renderParam rect prefetch img =
     (if m_renderParam (parentPage (tile st)) \<noteq> renderParam \<or> m_rect (tile st) \<noteq> rect
      then st
      else
        let st = st\<lparr>tile := (tile st)\<lparr>m_obsoletePixmap := QPixmap_null\<rparr>\<rparr>
        in if QImage_isNull img
           then st\<lparr>tile := (tile st)\<lparr>m_pixmapError := True\<rparr>\<rparr>
           else if prefetch \<and> \<not> wasCanceledForcibly (m_renderTask (tile st))
           then let cost = int_div (mul32 (mul32 (img_width img) (img_height img))
                                          (img_depth img)) 8
                in st\<lparr>s_cache := QCache_insert (s_cache st) (pixmapKey (tile st))
                                                (QPixmap_fromImage img) cost\<rparr>
           else if \<not> wasCanceled (m_renderTask (tile st))
           then st\<lparr>tile := (tile st)\<lparr>m_pixmap := QPixmap_fromImage img\<rparr>\<rparr>
           else st)"

definition takePixmap :: "State \<Rightarrow> QPixmap \<times> State" where
  "takePixmap st =
     (if QCache_contains (s_cache st) (pixmapKey (tile st))
      then (case QCache_object (s_cache st) (pixmapKey (tile st)) of
              (Some pixmap, cache) \<Rightarrow> (pixmap, st\<lparr>s_cache := cache\<rparr>)
            | (None, cache) \<Rightarrow> (QPixmap_null, st\<lparr>s_cache := cache\<rparr>))
      else if \<not> QPixmap_isNull (m_pixmap (tile st))
      then let pixmap = m_pixmap (tile st);
               st = st\<lparr>tile := (tile st)\<lparr>m_pixmap := QPixmap_null\<rparr>\<rparr>;
               cost = int_div (mul32 (mul32 (pm_width pixmap) (pm_height pixmap))
                                     (pm_depth pixmap)) 8
           in (pixmap, st\<lparr>s_cache := QCache_insert (s_cache st) (pixmapKey (tile st))
                                                     pixmap cost\<rparr>)
      else (QPixmap_null, snd (startRender st False)))"

text \<open>What \<open>paint\<close> asks the painter to draw.\<close>

datatype PaintOp =
    drawPixmap QPointF QPixmap
  | drawPixmapInto QRectF QPixmap
  | progressIcon QRectF
  | errorIcon QRectF

definition paint :: "State \<Rightarrow> QPointF \<Rightarrow> PaintOp \<times> State" where
  \<comment> \<open>the icons are painted into \<open>iconRect.toRect()\<close>; the rectangle is given before that conversion\<close>
  "paint st topLeft =
     (let (pixmap, st) = takePixmap st;
          r = m_rect (tile st)
      in if \<not> QPixmap_isNull pixmap
         then (drawPixmap \<lparr>pt_x = dadd (of_int32 (rect_x r)) (pt_x topLeft),
                            pt_y = dadd (of_int32 (rect_y r)) (pt_y topLeft)\<rparr> pixmap, st)
         else if \<not> QPixmap_isNull (m_obsoletePixmap (tile st))
         then (drawPixmapInto \<lparr>rectf_x = dadd (of_int32 (rect_x r)) (pt_x topLeft),
                                rectf_y = dadd (of_int32 (rect_y r)) (pt_y topLeft),
                                rectf_width = of_int32 (rect_width r),
                                rectf_height = of_int32 (rect_height r)\<rparr>
                              (m_obsoletePixmap (tile st)), st)
         else let iconExtent = min (dmul (fl64 (1 / 10)) (of_int32 (rect_width r)))
                                   (dmul (fl64 (1 / 10)) (of_int32 (rect_height r)));
                  iconRect = \<lparr>rectf_x = dadd (dadd (pt_x topLeft) (of_int32 (rect_x r)))
                                                (dmul (fl64 (1 / 100)) (of_int32 (rect_width r))),
                              rectf_y = dadd (dadd (pt_y topLeft) (of_int32 (rect_y r)))
                                                (dmul (fl64 (1 / 100)) (of_int32 (rect_height r))),
                              rectf_width = iconExtent, rectf_height = iconExtent\<rparr>
              in if \<not> m_pixmapError (tile st) then (progressIcon iconRect, st)
                 else (errorIcon iconRect, st))"

section \<open>Concrete inputs\<close>

definition exampleParam :: RenderParam where
  "exampleParam = \<lparr>resolution = \<lparr>resolutionX = 72, resolutionY = 72, devicePixelRatio = 1\<rparr>,
                    scaleFactor = 1, rotation = RotateBy0, invertColors = False\<rparr>"

definition exampleRect :: QRect where
  "exampleRect = \<lparr>rect_x = 0, rect_y = 0, rect_width = 256, rect_height = 256\<rparr>"

definition borderImage :: QImage where
  \<comment> \<open>100 by 100 pixels, a white border of 10 pixels around a black square\<close>
  "borderImage = \<lparr>img_width = 100, img_height = 100, img_depth = 32, img_devicePixelRatio = 1,
                    img_pixel = (\<lambda>x y. if 10 \<le> x \<and> x < 90 \<and> 10 \<le> y \<and> y < 90
                                       then 0xff000000 else 0xffffffff)\<rparr>"

definition dotImage :: QImage where
  \<comment> \<open>100 by 100 pixels, white but for one black pixel in the middle\<close>
  "dotImage = \<lparr>img_width = 100, img_height = 100, img_depth = 32, img_devicePixelRatio = 1,
                 img_pixel = (\<lambda>x y. if x = 50 \<and> y = 50 then 0xff000000 else 0xffffffff)\<rparr>"

definition whiteImage :: QImage where
  "whiteImage = \<lparr>img_width = 4, img_height = 3, img_depth = 32, img_devicePixelRatio = 1,
                   img_pixel = (\<lambda>x y. 0xffffffff)\<rparr>"

definition bigImage :: QImage where
  \<comment> \<open>8192 by 8192 pixels of 32 bits: a pixel buffer of 256 MB\<close>
  "bigImage = \<lparr>img_width = 8192, img_height = 8192, img_depth = 32, img_devicePixelRatio = 1,
                 img_pixel = (\<lambda>x y. 0xffffffff)\<rparr>"

definition examplePage :: Page where
  "examplePage = (\<lambda>resolutionX resolutionY rot rect. borderImage)"

definition exampleTask :: "bool \<Rightarrow> RenderTask" where
  "exampleTask prefetch = \<lparr>m_isRunning = True, m_wasCanceled = NotCanceled,
                            RenderTask.m_renderParam = exampleParam,
                            RenderTask.m_rect = exampleRect, m_prefetch = prefetch\<rparr>"

definition examplePageItem :: PageItem where
  "examplePageItem = \<lparr>page_addr = 1, m_renderParam = exampleParam, m_page = examplePage\<rparr>"

definition exampleTile :: TileItem where
  "exampleTile = \<lparr>parentPage = examplePageItem, m_rect = exampleRect, m_pixmapError = False,
                    m_pixmap = QPixmap_null, m_obsoletePixmap = QPixmap_null,
                    m_renderTask = (exampleTask False)\<lparr>m_isRunning := False\<rparr>\<rparr>"

definition exampleState :: State where
  "exampleState = \<lparr>tile = exampleTile, s_cache = QCache_empty\<lparr>mx := 33554432\<rparr>,
                     threadPool = []\<rparr>"

definition obsoleteState :: State where
  \<comment> \<open>the tile of \<open>exampleState\<close> with an obsolete pixmap kept by an earlier \<open>refresh\<close>\<close>
  "obsoleteState =
     exampleState\<lparr>tile := exampleTile\<lparr>m_obsoletePixmap := QPixmap_fromImage borderImage\<rparr>\<rparr>"

definition forcedState :: State where
  \<comment> \<open>the tile of \<open>exampleState\<close> after \<open>m_renderTask->cancel(true)\<close>\<close>
  "forcedState =
     exampleState\<lparr>tile := exampleTile\<lparr>m_renderTask := cancel (m_renderTask exampleTile) True\<rparr>\<rparr>"

definition exampleTile2x :: TileItem where
  \<comment> \<open>\<open>exampleTile\<close> on a display with device pixel ratio 2\<close>
  "exampleTile2x = exampleTile\<lparr>parentPage := examplePageItem\<lparr>m_renderParam :=
      exampleParam\<lparr>resolution := \<lparr>resolutionX = 72, resolutionY = 72, devicePixelRatio = 2\<rparr>\<rparr>\<rparr>\<rparr>"

definition exampleTileZoomed :: TileItem where
  \<comment> \<open>\<open>exampleTile\<close> with the scale factor \<open>1 + 2\<^sup>-\<^sup>2\<^sup>2\<close>\<close>
  "exampleTileZoomed = exampleTile\<lparr>parentPage := examplePageItem\<lparr>m_renderParam :=
      exampleParam\<lparr>scaleFactor := 1 + 1 / 4194304\<rparr>\<rparr>\<rparr>"

text \<open>The coordinates of a \<open>QRect\<close> are \<open>int\<close>s of 32 bits.\<close>

definition int32 :: "int \<Rightarrow> bool" where
  "int32 i = (- (2 ^ 31) \<le> i \<and> i < 2 ^ 31)"

definition QRect_ints :: "QRect \<Rightarrow> bool" where
  "QRect_ints r = (int32 (rect_x r) \<and> int32 (rect_y r) \<and> int32 (rect_width r) \<and> int32 (rect_height r))"

section \<open>The specification's wording, for comparison with the code\<close>

text \<open>
  The events of a run in the words of the specification: \<open>finished\<close> alone when the first or
  the second checkpoint reports a cancellation; otherwise the image, then the crop box only if
  margin trimming is requested and the third checkpoint reports no cancellation, then
  \<open>finished\<close>. The first argument is the trim-margins setting of the program, which
  \<open>RenderTask\<close> does not hold.
\<close>

definition run_specified :: "bool \<Rightarrow> RenderTask \<Rightarrow> Page \<Rightarrow> int \<Rightarrow> int \<Rightarrow> int \<Rightarrow> Signal list" where
  "run_specified trimMarginsRequested task page w1 w2 w3 =
     (if testCancellation w1 (m_prefetch task) \<or> testCancellation w2 (m_prefetch task)
      then [finished]
      else
        let img = page (scaledResolutionX (RenderTask.m_renderParam task))
                       (scaledResolutionY (RenderTask.m_renderParam task))
                       (rotation (RenderTask.m_renderParam task)) (RenderTask.m_rect task);
            img = img\<lparr>img_devicePixelRatio :=
                             devicePixelRatio (resolution (RenderTask.m_renderParam task))\<rparr>;
            img = (if invertColors (RenderTask.m_renderParam task) then invertPixels img
                     else img)
        in [imageReady (RenderTask.m_renderParam task) (RenderTask.m_rect task)
                       (m_prefetch task) img]
           @ (if trimMarginsRequested \<and> \<not> testCancellation w3 (m_prefetch task)
              then [cropBoxReady (RenderTask.m_renderParam task) (RenderTask.m_rect task)
                                 (trimMargins Qt_white img)]
              else [])
           @ [finished])"

text \<open>
  The cost of a cache entry in the words of the specification is the size of its pixel buffer
  in bytes, and the resident cost of the cache is the sum over its entries.
\<close>


definition bufferBytes :: "QPixmap \<Rightarrow> int" where
  \<comment> \<open>the size of the pixel buffer of a pixmap in bytes: width times height times depth / 8\<close>
  "bufferBytes pixmap = pm_width pixmap * pm_height pixmap * pm_depth pixmap div 8"

definition residentBytes :: "QCache \<Rightarrow> int" where
  \<comment> \<open>the bytes of the pixel buffers the cache holds\<close>
  "residentBytes c = sum_list (map (\<lambda>e. bufferBytes (fst (snd e))) (entries c))"

declare bitlen.simps [simp del]
declare digits10.simps [simp del]
declare columnHasPaperColor_from.simps [simp del]
declare rowHasPaperColor_from.simps [simp del]
declare scanLeft.simps [simp del]
declare scanRight.simps [simp del]
declare scanTop.simps [simp del]
declare scanBottom.simps [simp del]
declare trim_entries.simps [simp del]

section \<open>Cancellation checkpoints and the order of the signals\<close>

lemma testCancellation_qt4_eq:
  "testCancellation_qt4 w p = (testCancellation w p, w)"
  by (simp add: testCancellation_qt4_def testCancellation_def testAndSetRelaxed_def)



text \<open>
  The order of the signals of a run. A run that is cancelled at the first or second checkpoint
  emits \<open>finished\<close> alone. A run that delivers its result emits \<open>imageReady\<close> first, then
  \<open>cropBoxReady\<close> unless the third checkpoint (between the two emissions) reports a
  cancellation, then \<open>finished\<close>. On every path \<open>finished\<close> is the last signal, it is emitted
  once, and the task is not running afterwards. No setting enters: the guard of the source
  around the third checkpoint and \<open>cropBoxReady\<close> is the constant \<open>true\<close>.
\<close>

lemma run_order:
  "(testCancellation w1 (m_prefetch task) \<or> testCancellation w2 (m_prefetch task)
      \<longrightarrow> fst (run task page w1 w2 w3) = [finished])
   \<and> (\<not> testCancellation w1 (m_prefetch task) \<and> \<not> testCancellation w2 (m_prefetch task)
      \<longrightarrow> (\<exists>img. fst (run task page w1 w2 w3) =
             imageReady (RenderTask.m_renderParam task) (RenderTask.m_rect task)
                        (m_prefetch task) img
             # (if testCancellation w3 (m_prefetch task) then []
                else [cropBoxReady (RenderTask.m_renderParam task) (RenderTask.m_rect task)
                                   (trimMargins Qt_white img)])
             @ [finished]))
   \<and> last (fst (run task page w1 w2 w3)) = finished
   \<and> count_list (fst (run task page w1 w2 w3)) finished = 1
   \<and> \<not> m_isRunning (snd (run task page w1 w2 w3))"
  by (simp add: run_def finish_def Let_def)

text \<open>
  With margin trimming requested, the code emits the signals of the specification.
\<close>

lemma run_specified_requested:
  "fst (run task page w1 w2 w3) = run_specified True task page w1 w2 w3"
  by (simp add: run_def run_specified_def finish_def Let_def)

section \<open>Evaluating binary64 arithmetic\<close>

text \<open>
  \<open>ilog2\<close> is the binary exponent, so \<open>fl64\<close> of a number between \<open>2\<^sup>k\<close> and \<open>2\<^sup>k\<^sup>+\<^sup>1\<close> is the
  multiple of \<open>2\<^sup>k\<^sup>-\<^sup>5\<^sup>2\<close> nearest to it. The values below are the doubles the operations of
  \<open>roundDown\<close> and \<open>roundUp\<close> produce on the fractions of the images considered below.
\<close>

lemma floor_rat_numeral [simp]: "\<lfloor>numeral a / numeral b :: rat\<rfloor> = numeral a div numeral b"
  by (metis floor_divide_of_int_eq of_int_numeral)

lemma ceiling_rat_numeral [simp]: "\<lceil>numeral a / numeral b :: rat\<rceil> = - (- numeral a div numeral b)"
  using ceiling_divide_eq_div[of "numeral a" "numeral b", where ?'a = rat] by simp

lemma bitlen_bounds: "0 < n \<Longrightarrow> 2 ^ (bitlen n - 1) \<le> n \<and> n < 2 ^ bitlen n"
proof (induction n rule: bitlen.induct)
  case (1 n)
  show ?case
  proof (cases "n div 2 = 0")
    case True
    with \<open>0 < n\<close> have "n = 1" by presburger
    then show ?thesis by (simp add: bitlen.simps[of "Suc 0"] bitlen.simps[of 0])
  next
    case False
    then have pos: "0 < n div 2" by simp
    from 1 pos have ih: "2 ^ (bitlen (n div 2) - 1) \<le> n div 2" "n div 2 < 2 ^ bitlen (n div 2)"
      by auto
    have bl: "bitlen n = Suc (bitlen (n div 2))"
      using \<open>0 < n\<close> by (subst bitlen.simps) simp
    have b1: "0 < bitlen (n div 2)"
      using pos by (subst bitlen.simps) simp
    then obtain b where b: "bitlen (n div 2) = Suc b" by (cases "bitlen (n div 2)") auto
    from ih b have "2 * 2 ^ b \<le> n" "n < 2 * 2 ^ Suc b" by auto
    then show ?thesis by (simp add: bl b)
  qed
qed

lemma powi_mono2: "k \<le> j \<Longrightarrow> (2::rat) powi k \<le> 2 powi j"
  by (rule power_int_increasing) auto

lemma powi_unique:
  assumes "(2::rat) powi k \<le> x" "x < 2 powi (k + 1)" "2 powi j \<le> x" "x < 2 powi (j + 1)"
  shows "j = k"
proof (rule ccontr)
  assume "j \<noteq> k"
  then consider "j + 1 \<le> k" | "k + 1 \<le> j" by linarith
  then show False
  proof cases
    case 1
    then have "(2::rat) powi (j + 1) \<le> 2 powi k" by (rule powi_mono2)
    with assms show False by linarith
  next
    case 2
    then have "(2::rat) powi (k + 1) \<le> 2 powi j" by (rule powi_mono2)
    with assms show False by linarith
  qed
qed

lemma ilog2_bounds:
  assumes "0 < x"
  shows "2 powi (ilog2 x) \<le> x \<and> x < 2 powi (ilog2 x + 1)"
proof -
  obtain p q where pq: "quotient_of x = (p, q)" by (cases "quotient_of x")
  then have q: "0 < q" and x: "x = of_int p / of_int q"
    by (auto simp: quotient_of_denom_pos quotient_of_div)
  from assms q x have p: "0 < p" by (simp add: zero_less_divide_iff)
  define bp where "bp = bitlen (nat p)"
  define bq where "bq = bitlen (nat q)"
  have P: "2 ^ (bp - 1) \<le> nat p" "nat p < 2 ^ bp"
    using bitlen_bounds[of "nat p"] p by (auto simp: bp_def)
  have Q: "2 ^ (bq - 1) \<le> nat q" "nat q < 2 ^ bq"
    using bitlen_bounds[of "nat q"] q by (auto simp: bq_def)
  have bp1: "1 \<le> bp" using P(2) p by (cases bp) auto
  have bq1: "1 \<le> bq" using Q(2) q by (cases bq) auto
  have Pr: "(2::rat) ^ (bp - 1) \<le> of_int p" "(of_int p :: rat) < 2 ^ bp"
  proof -
    have "of_nat (2 ^ (bp - 1)) \<le> (of_nat (nat p) :: rat)" using P(1) by (simp only: of_nat_le_iff)
    then show "(2::rat) ^ (bp - 1) \<le> of_int p" using p by simp
    have "(of_nat (nat p) :: rat) < of_nat (2 ^ bp)" using P(2) by (simp only: of_nat_less_iff)
    then show "(of_int p :: rat) < 2 ^ bp" using p by simp
  qed
  have Qr: "(2::rat) ^ (bq - 1) \<le> of_int q" "(of_int q :: rat) < 2 ^ bq"
  proof -
    have "of_nat (2 ^ (bq - 1)) \<le> (of_nat (nat q) :: rat)" using Q(1) by (simp only: of_nat_le_iff)
    then show "(2::rat) ^ (bq - 1) \<le> of_int q" using q by simp
    have "(of_nat (nat q) :: rat) < of_nat (2 ^ bq)" using Q(2) by (simp only: of_nat_less_iff)
    then show "(of_int q :: rat) < 2 ^ bq" using q by simp
  qed
  define k where "k = int bp - int bq"
  have qpos: "(0::rat) < of_int q" using q by simp
  \<comment> \<open>x lies strictly between 2^(k-1) and 2^(k+1)\<close>
  have lo: "2 powi (k - 1) < x"
  proof -
    have "2 powi (k - 1) * of_int q < (2::rat) powi (k - 1) * 2 ^ bq"
      using Qr(2) by (simp add: mult_strict_left_mono)
    also have "\<dots> = 2 powi (k - 1 + int bq)"
      by (simp add: power_int_add)
    also have "k - 1 + int bq = int (bp - 1)" using bp1 by (simp add: k_def)
    also have "(2::rat) powi int (bp - 1) = 2 ^ (bp - 1)" by simp
    also have "\<dots> \<le> of_int p" by (rule Pr(1))
    finally have "2 powi (k - 1) * of_int q < (of_int p :: rat)" .
    then show ?thesis using qpos by (simp add: x pos_less_divide_eq)
  qed
  have hi: "x < 2 powi (k + 1)"
  proof -
    have "(of_int p :: rat) < 2 ^ bp" by (rule Pr(2))
    also have "\<dots> = 2 powi (int bp)" by simp
    also have "int bp = (k + 1) + int (bq - 1)" using bq1 by (simp add: k_def)
    also have "(2::rat) powi (k + 1 + int (bq - 1)) = 2 powi (k + 1) * 2 ^ (bq - 1)"
      by (simp add: power_int_add)
    also have "\<dots> \<le> 2 powi (k + 1) * of_int q"
      using Qr(1) by (simp add: mult_left_mono)
    finally have "(of_int p :: rat) < 2 powi (k + 1) * of_int q" .
    then show ?thesis using qpos by (simp add: x pos_divide_less_eq)
  qed
  have il: "ilog2 x = (if 2 powi k \<le> x then k else k - 1)"
    by (simp add: ilog2_def pq Let_def k_def bp_def bq_def)
  show ?thesis
  proof (cases "2 powi k \<le> x")
    case True
    then show ?thesis using hi by (simp add: il)
  next
    case False
    then show ?thesis using lo by (simp add: il)
  qed
qed

lemma ilog2_eq:
  assumes "2 powi k \<le> x" "x < 2 powi (k + 1)"
  shows "ilog2 x = k"
proof -
  have "0 < x" using assms(1) by (smt (verit) zero_less_power_int zero_less_numeral less_le_trans)
  from ilog2_bounds[OF this] assms show ?thesis by (metis powi_unique)
qed

lemma fl64_eq:
  assumes "2 powi k \<le> \<bar>x\<bar>" "\<bar>x\<bar> < 2 powi (k + 1)" "- 1022 \<le> k"
    and "roundHalfEven (x / 2 powi (k - 52)) = m"
  shows "fl64 x = of_int m * 2 powi (k - 52)"
proof -
  have "0 < \<bar>x\<bar>" using assms(1) by (smt (verit) zero_less_power_int zero_less_numeral less_le_trans)
  then have "x \<noteq> 0" by simp
  moreover have "ilog2 \<bar>x\<bar> = k" using assms(1,2) by (rule ilog2_eq)
  moreover have "max (k - 52) (- 1074) = k - 52" using assms(3) by simp
  ultimately show ?thesis using assms(4) by (simp add: fl64_def Let_def)
qed

lemma fl64_tol: "fl64 (5 / 100) = 3602879701896397 / 72057594037927936"
  by (subst fl64_eq[where k="-5" and m="7205759403792794"]) (simp_all add: roundHalfEven_def Let_def)

lemma one_minus_tol: "dsub 1 (3602879701896397 / 72057594037927936) = 4278419646001971 / 4503599627370496"
  unfolding dsub_def
  by (subst fl64_eq[where k="-1" and m="8556839292003942"]) (simp_all add: roundHalfEven_def Let_def)

lemma one_plus_tol: "dadd 1 (3602879701896397 / 72057594037927936) = 4728779608739021 / 4503599627370496"
  unfolding dadd_def
  by (subst fl64_eq[where k="0" and m="4728779608739021"]) (simp_all add: roundHalfEven_def Let_def)

lemma ddiv_10_100: "ddiv 10 100 = 3602879701896397 / 36028797018963968"
  unfolding ddiv_def
  by (subst fl64_eq[where k="-4" and m="7205759403792794"]) (simp_all add: roundHalfEven_def Let_def)

lemma down_tenth_a: "dmul (4278419646001971 / 4503599627370496) (3602879701896397 / 36028797018963968) = 3422735716801577 / 36028797018963968"
  unfolding dmul_def
  by (subst fl64_eq[where k="-4" and m="6845471433603154"]) (simp_all add: roundHalfEven_def Let_def)

lemma down_tenth_b: "dmul (3422735716801577 / 36028797018963968) 100 = 19 / 2"
  unfolding dmul_def
  by (subst fl64_eq[where k="3" and m="5348024557502464"]) (simp_all add: roundHalfEven_def Let_def)

lemma down_tenth_c: "qFloor (19 / 2) = 9"
  by (simp add: qFloor_def)

lemma roundDown_10_100:
  "roundDown (ddiv (of_int32 10) (of_int32 100)) cropBoxPrecision cropBoxTolerance = ddiv 9 100"
  unfolding roundDown_def cropBoxPrecision_def cropBoxTolerance_def of_int32_def
  by (simp only: of_int_numeral of_int_1 of_int_0 fl64_tol one_minus_tol ddiv_10_100 down_tenth_a down_tenth_b down_tenth_c)

lemma ddiv_80_100: "ddiv 80 100 = 3602879701896397 / 4503599627370496"
  unfolding ddiv_def
  by (subst fl64_eq[where k="-1" and m="7205759403792794"]) (simp_all add: roundHalfEven_def Let_def)

lemma up_eighty_a: "dmul (4728779608739021 / 4503599627370496) (3602879701896397 / 4503599627370496) = 3783023686991217 / 4503599627370496"
  unfolding dmul_def
  by (subst fl64_eq[where k="-1" and m="7566047373982434"]) (simp_all add: roundHalfEven_def Let_def)

lemma up_eighty_b: "dmul (3783023686991217 / 4503599627370496) 100 = 5910974510923777 / 70368744177664"
  unfolding dmul_def
  by (subst fl64_eq[where k="6" and m="5910974510923777"]) (simp_all add: roundHalfEven_def Let_def)

lemma up_eighty_c: "qCeil (5910974510923777 / 70368744177664) = 85"
  by (simp add: qCeil_def)

lemma roundUp_80_100:
  "roundUp (ddiv (of_int32 80) (of_int32 100)) cropBoxPrecision cropBoxTolerance = ddiv 85 100"
  unfolding roundUp_def cropBoxPrecision_def cropBoxTolerance_def of_int32_def
  by (simp only: of_int_numeral of_int_1 of_int_0 fl64_tol one_plus_tol ddiv_80_100 up_eighty_a up_eighty_b up_eighty_c)

lemma ddiv_50_100: "ddiv 50 100 = 1 / 2"
  unfolding ddiv_def
  by (subst fl64_eq[where k="-1" and m="4503599627370496"]) (simp_all add: roundHalfEven_def Let_def)

lemma down_half_a: "dmul (4278419646001971 / 4503599627370496) (1 / 2) = 4278419646001971 / 9007199254740992"
  unfolding dmul_def
  by (subst fl64_eq[where k="-2" and m="8556839292003942"]) (simp_all add: roundHalfEven_def Let_def)

lemma down_half_b: "dmul (4278419646001971 / 9007199254740992) 100 = 95 / 2"
  unfolding dmul_def
  by (subst fl64_eq[where k="5" and m="6685030696878080"]) (simp_all add: roundHalfEven_def Let_def)

lemma down_half_c: "qFloor (95 / 2) = 47"
  by (simp add: qFloor_def)

lemma roundDown_50_100:
  "roundDown (ddiv (of_int32 50) (of_int32 100)) cropBoxPrecision cropBoxTolerance = ddiv 47 100"
  unfolding roundDown_def cropBoxPrecision_def cropBoxTolerance_def of_int32_def
  by (simp only: of_int_numeral of_int_1 of_int_0 fl64_tol one_minus_tol ddiv_50_100 down_half_a down_half_b down_half_c)

lemma ddiv_1_100: "ddiv 1 100 = 5764607523034235 / 576460752303423488"
  unfolding ddiv_def
  by (subst fl64_eq[where k="-7" and m="5764607523034235"]) (simp_all add: roundHalfEven_def Let_def)

lemma up_one_a: "dmul (4728779608739021 / 4503599627370496) (5764607523034235 / 576460752303423488) = 6052837899185947 / 576460752303423488"
  unfolding dmul_def
  by (subst fl64_eq[where k="-7" and m="6052837899185947"]) (simp_all add: roundHalfEven_def Let_def)

lemma up_one_b: "dmul (6052837899185947 / 576460752303423488) 100 = 4728779608739021 / 4503599627370496"
  unfolding dmul_def
  by (subst fl64_eq[where k="0" and m="4728779608739021"]) (simp_all add: roundHalfEven_def Let_def)

lemma up_one_c: "qCeil (4728779608739021 / 4503599627370496) = 2"
  by (simp add: qCeil_def)

lemma roundUp_1_100:
  "roundUp (ddiv (of_int32 1) (of_int32 100)) cropBoxPrecision cropBoxTolerance = ddiv 2 100"
  unfolding roundUp_def cropBoxPrecision_def cropBoxTolerance_def of_int32_def
  by (simp only: of_int_numeral of_int_1 of_int_0 fl64_tol one_plus_tol ddiv_1_100 up_one_a up_one_b up_one_c)

lemma fl64_9_100: "fl64 (9 / 100) = 3242591731706757 / 36028797018963968"
  by (subst fl64_eq[where k="-4" and m="6485183463413514"]) (simp_all add: roundHalfEven_def Let_def)

lemma fl64_85_100: "fl64 (85 / 100) = 7656119366529843 / 9007199254740992"
  by (subst fl64_eq[where k="-1" and m="7656119366529843"]) (simp_all add: roundHalfEven_def Let_def)

lemma fl64_84_100: "fl64 (84 / 100) = 7566047373982433 / 9007199254740992"
  by (subst fl64_eq[where k="-1" and m="7566047373982433"]) (simp_all add: roundHalfEven_def Let_def)

lemma fl64_47_100: "fl64 (47 / 100) = 2116691824864133 / 4503599627370496"
  by (subst fl64_eq[where k="-2" and m="8466767299456532"]) (simp_all add: roundHalfEven_def Let_def)

lemma fl64_2_100: "fl64 (2 / 100) = 5764607523034235 / 288230376151711744"
  by (subst fl64_eq[where k="-6" and m="5764607523034235"]) (simp_all add: roundHalfEven_def Let_def)

lemma fl64_95_100: "fl64 (95 / 100) = 4278419646001971 / 4503599627370496"
  by (subst fl64_eq[where k="-1" and m="8556839292003942"]) (simp_all add: roundHalfEven_def Let_def)

lemma down_full_a: "dmul (4278419646001971 / 4503599627370496) 1 = 4278419646001971 / 4503599627370496"
  unfolding dmul_def
  by (subst fl64_eq[where k="-1" and m="8556839292003942"]) (simp_all add: roundHalfEven_def Let_def)

lemma down_full_b: "dmul (4278419646001971 / 4503599627370496) 100 = 95"
  unfolding dmul_def
  by (subst fl64_eq[where k="6" and m="6685030696878080"]) (simp_all add: roundHalfEven_def Let_def)

lemma down_full_c: "qFloor (95) = 95"
  by (simp add: qFloor_def)

lemma up_zero_a: "dmul (4728779608739021 / 4503599627370496) 0 = 0"
  by (simp add: dmul_def fl64_def)

lemma up_zero_b: "dmul 0 100 = 0"
  by (simp add: dmul_def fl64_def)

section \<open>Trimming margins\<close>

lemma columnHasPaperColor_from_iff:
  "columnHasPaperColor_from y x paperColor img \<longleftrightarrow>
     (\<forall>y'. y \<le> y' \<and> y' < img_height img \<longrightarrow> paperColor = QColor_fromRgb (img_pixel img x y'))"
proof (induction y x paperColor img rule: columnHasPaperColor_from.induct)
  case (1 y x paperColor img)
  show ?case
  proof (cases "y < img_height img")
    case False
    then show ?thesis by (subst columnHasPaperColor_from.simps) auto
  next
    case True
    show ?thesis
    proof (cases "paperColor \<noteq> QColor_fromRgb (img_pixel img x y)")
      case neq: True
      then show ?thesis using True by (subst columnHasPaperColor_from.simps) auto
    next
      case eq: False
      have "(\<forall>y'. y \<le> y' \<and> y' < img_height img \<longrightarrow> paperColor = QColor_fromRgb (img_pixel img x y'))
         \<longleftrightarrow> (\<forall>y'. y + 1 \<le> y' \<and> y' < img_height img \<longrightarrow> paperColor = QColor_fromRgb (img_pixel img x y'))"
        using eq by (metis add1_zle_eq order_le_less)
      then show ?thesis using True eq 1 by (subst columnHasPaperColor_from.simps) simp
    qed
  qed
qed

lemma rowHasPaperColor_from_iff:
  "rowHasPaperColor_from x y paperColor img \<longleftrightarrow>
     (\<forall>x'. x \<le> x' \<and> x' < img_width img \<longrightarrow> paperColor = QColor_fromRgb (img_pixel img x' y))"
proof (induction x y paperColor img rule: rowHasPaperColor_from.induct)
  case (1 x y paperColor img)
  show ?case
  proof (cases "x < img_width img")
    case False
    then show ?thesis by (subst rowHasPaperColor_from.simps) auto
  next
    case True
    show ?thesis
    proof (cases "paperColor \<noteq> QColor_fromRgb (img_pixel img x y)")
      case neq: True
      then show ?thesis using True by (subst rowHasPaperColor_from.simps) auto
    next
      case eq: False
      have "(\<forall>x'. x \<le> x' \<and> x' < img_width img \<longrightarrow> paperColor = QColor_fromRgb (img_pixel img x' y))
         \<longleftrightarrow> (\<forall>x'. x + 1 \<le> x' \<and> x' < img_width img \<longrightarrow> paperColor = QColor_fromRgb (img_pixel img x' y))"
        using eq by (metis add1_zle_eq order_le_less)
      then show ?thesis using True eq 1 by (subst rowHasPaperColor_from.simps) simp
    qed
  qed
qed

lemma columnHasPaperColor_iff:
  "columnHasPaperColor x paperColor img \<longleftrightarrow>
     (\<forall>y. 0 \<le> y \<and> y < img_height img \<longrightarrow> paperColor = QColor_fromRgb (img_pixel img x y))"
  by (simp add: columnHasPaperColor_def columnHasPaperColor_from_iff)

lemma rowHasPaperColor_iff:
  "rowHasPaperColor y paperColor img \<longleftrightarrow>
     (\<forall>x. 0 \<le> x \<and> x < img_width img \<longrightarrow> paperColor = QColor_fromRgb (img_pixel img x y))"
  by (simp add: rowHasPaperColor_def rowHasPaperColor_from_iff)

lemma scanLeft_stop:
  "l \<le> k \<Longrightarrow> k < img_width img
   \<Longrightarrow> \<forall>x. l \<le> x \<and> x < k \<longrightarrow> columnHasPaperColor x paperColor img
   \<Longrightarrow> \<not> columnHasPaperColor k paperColor img
   \<Longrightarrow> scanLeft l paperColor img = k"
proof (induction l paperColor img rule: scanLeft.induct)
  case (1 l paperColor img)
  show ?case
  proof (cases "l = k")
    case True
    with 1 show ?thesis by (subst scanLeft.simps) simp
  next
    case False
    with 1(2) have lk: "l < k" by simp
    with 1 have "columnHasPaperColor l paperColor img" by simp
    moreover have "scanLeft (l + 1) paperColor img = k"
      using 1 lk by (intro 1(1)) auto
    ultimately show ?thesis using lk 1(3) by (subst scanLeft.simps) simp
  qed
qed

lemma scanLeft_all:
  "l \<le> img_width img
   \<Longrightarrow> \<forall>x. l \<le> x \<and> x < img_width img \<longrightarrow> columnHasPaperColor x paperColor img
   \<Longrightarrow> scanLeft l paperColor img = img_width img"
proof (induction l paperColor img rule: scanLeft.induct)
  case (1 l paperColor img)
  show ?case
  proof (cases "l < img_width img")
    case False
    with 1(2) show ?thesis by (subst scanLeft.simps) simp
  next
    case True
    with 1 have c: "columnHasPaperColor l paperColor img" by simp
    have "scanLeft (l + 1) paperColor img = img_width img"
      using 1 True c by (intro 1(1)) auto
    then show ?thesis using True c by (subst scanLeft.simps) simp
  qed
qed

lemma scanRight_stop:
  "left \<le> k \<Longrightarrow> k \<le> r
   \<Longrightarrow> \<forall>x. k < x \<and> x \<le> r \<longrightarrow> columnHasPaperColor x paperColor img
   \<Longrightarrow> \<not> columnHasPaperColor k paperColor img
   \<Longrightarrow> scanRight r left paperColor img = k"
proof (induction r left paperColor img rule: scanRight.induct)
  case (1 r left paperColor img)
  show ?case
  proof (cases "r = k")
    case True
    with 1 show ?thesis by (subst scanRight.simps) simp
  next
    case False
    with 1(3) have kr: "k < r" by simp
    with 1 have c: "columnHasPaperColor r paperColor img" by simp
    have "scanRight (r - 1) left paperColor img = k"
      using 1 kr c by (intro 1(1)) auto
    then show ?thesis using kr c 1(2) by (subst scanRight.simps) simp
  qed
qed

lemma scanRight_none: "r < left \<Longrightarrow> scanRight r left paperColor img = r"
  by (subst scanRight.simps) simp

lemma scanTop_stop:
  "t \<le> k \<Longrightarrow> k < img_height img
   \<Longrightarrow> \<forall>y. t \<le> y \<and> y < k \<longrightarrow> rowHasPaperColor y paperColor img
   \<Longrightarrow> \<not> rowHasPaperColor k paperColor img
   \<Longrightarrow> scanTop t paperColor img = k"
proof (induction t paperColor img rule: scanTop.induct)
  case (1 t paperColor img)
  show ?case
  proof (cases "t = k")
    case True
    with 1 show ?thesis by (subst scanTop.simps) simp
  next
    case False
    with 1(2) have lk: "t < k" by simp
    with 1 have "rowHasPaperColor t paperColor img" by simp
    moreover have "scanTop (t + 1) paperColor img = k"
      using 1 lk by (intro 1(1)) auto
    ultimately show ?thesis using lk 1(3) by (subst scanTop.simps) simp
  qed
qed

lemma scanTop_all:
  "t \<le> img_height img
   \<Longrightarrow> \<forall>y. t \<le> y \<and> y < img_height img \<longrightarrow> rowHasPaperColor y paperColor img
   \<Longrightarrow> scanTop t paperColor img = img_height img"
proof (induction t paperColor img rule: scanTop.induct)
  case (1 t paperColor img)
  show ?case
  proof (cases "t < img_height img")
    case False
    with 1(2) show ?thesis by (subst scanTop.simps) simp
  next
    case True
    with 1 have c: "rowHasPaperColor t paperColor img" by simp
    have "scanTop (t + 1) paperColor img = img_height img"
      using 1 True c by (intro 1(1)) auto
    then show ?thesis using True c by (subst scanTop.simps) simp
  qed
qed

lemma scanBottom_stop:
  "t \<le> k \<Longrightarrow> k \<le> b
   \<Longrightarrow> \<forall>y. k < y \<and> y \<le> b \<longrightarrow> rowHasPaperColor y paperColor img
   \<Longrightarrow> \<not> rowHasPaperColor k paperColor img
   \<Longrightarrow> scanBottom b t paperColor img = k"
proof (induction b t paperColor img rule: scanBottom.induct)
  case (1 b t paperColor img)
  show ?case
  proof (cases "b = k")
    case True
    with 1 show ?thesis by (subst scanBottom.simps) simp
  next
    case False
    with 1(3) have kb: "k < b" by simp
    with 1 have c: "rowHasPaperColor b paperColor img" by simp
    have "scanBottom (b - 1) t paperColor img = k"
      using 1 kb c by (intro 1(1)) auto
    then show ?thesis using kb c 1(2) by (subst scanBottom.simps) simp
  qed
qed

lemma scanBottom_none: "b < t \<Longrightarrow> scanBottom b t paperColor img = b"
  by (subst scanBottom.simps) simp

lemma ddiv_same: "i \<noteq> 0 \<Longrightarrow> ddiv (of_int32 i) (of_int32 i) = 1"
  unfolding ddiv_def of_int32_def
  by (subst fl64_eq[where k=0 and m=4503599627370496]) (simp_all add: roundHalfEven_def Let_def)

lemma ddiv_zero: "ddiv (of_int32 0) b = 0"
  by (simp add: ddiv_def of_int32_def fl64_def)

lemma roundDown_one: "roundDown 1 cropBoxPrecision cropBoxTolerance = fl64 (95 / 100)"
  unfolding roundDown_def cropBoxPrecision_def cropBoxTolerance_def
  by (simp only: fl64_tol one_minus_tol down_full_a down_full_b down_full_c)
     (simp add: of_int32_def ddiv_def)

lemma roundUp_zero: "roundUp 0 cropBoxPrecision cropBoxTolerance = 0"
  unfolding roundUp_def cropBoxPrecision_def cropBoxTolerance_def
  by (simp only: fl64_tol one_plus_tol up_zero_a up_zero_b)
     (simp add: of_int32_def ddiv_def qCeil_def fl64_def)

lemma fromRgb_white: "QColor_fromRgb 0xffffffff = Qt_white"
  by (simp add: QColor_fromRgb_def Qt_white_def qRed_def qGreen_def qBlue_def)

lemma fromRgb_black: "QColor_fromRgb 0xff000000 \<noteq> Qt_white"
  by (simp add: QColor_fromRgb_def Qt_white_def qRed_def qGreen_def qBlue_def)

lemma trimMargins_bounds:
  assumes w: "0 < img_width img" and h: "0 < img_height img"
    and l: "0 \<le> l" "l \<le> r" "r < img_width img"
    and t: "0 \<le> t" "t \<le> b" "b < img_height img"
    and left: "\<forall>x y. 0 \<le> x \<and> x < l \<and> 0 \<le> y \<and> y < img_height img
                 \<longrightarrow> QColor_fromRgb (img_pixel img x y) = paperColor"
    and right: "\<forall>x y. r < x \<and> x < img_width img \<and> 0 \<le> y \<and> y < img_height img
                 \<longrightarrow> QColor_fromRgb (img_pixel img x y) = paperColor"
    and top: "\<forall>x y. 0 \<le> x \<and> x < img_width img \<and> 0 \<le> y \<and> y < t
                 \<longrightarrow> QColor_fromRgb (img_pixel img x y) = paperColor"
    and bottom: "\<forall>x y. 0 \<le> x \<and> x < img_width img \<and> b < y \<and> y < img_height img
                 \<longrightarrow> QColor_fromRgb (img_pixel img x y) = paperColor"
    and cl: "\<exists>y. 0 \<le> y \<and> y < img_height img \<and> QColor_fromRgb (img_pixel img l y) \<noteq> paperColor"
    and cr: "\<exists>y. 0 \<le> y \<and> y < img_height img \<and> QColor_fromRgb (img_pixel img r y) \<noteq> paperColor"
    and ct: "\<exists>x. 0 \<le> x \<and> x < img_width img \<and> QColor_fromRgb (img_pixel img x t) \<noteq> paperColor"
    and cb: "\<exists>x. 0 \<le> x \<and> x < img_width img \<and> QColor_fromRgb (img_pixel img x b) \<noteq> paperColor"
  shows "trimMargins paperColor img =
     \<lparr>rectf_x = roundDown (ddiv (of_int32 l) (of_int32 (img_width img)))
                          cropBoxPrecision cropBoxTolerance,
      rectf_y = roundDown (ddiv (of_int32 t) (of_int32 (img_height img)))
                          cropBoxPrecision cropBoxTolerance,
      rectf_width = roundUp (ddiv (of_int32 (r - l + 1)) (of_int32 (img_width img)))
                            cropBoxPrecision cropBoxTolerance,
      rectf_height = roundUp (ddiv (of_int32 (b - t + 1)) (of_int32 (img_height img)))
                             cropBoxPrecision cropBoxTolerance\<rparr>"
proof -
  have sl: "scanLeft 0 paperColor img = l"
  proof (rule scanLeft_stop)
    show "\<forall>x. 0 \<le> x \<and> x < l \<longrightarrow> columnHasPaperColor x paperColor img"
      using left by (auto simp: columnHasPaperColor_iff)
    show "\<not> columnHasPaperColor l paperColor img"
      using cl by (auto simp: columnHasPaperColor_iff)
  qed (use l in auto)
  have sr: "scanRight (img_width img - 1) l paperColor img = r"
  proof (rule scanRight_stop)
    show "\<forall>x. r < x \<and> x \<le> img_width img - 1 \<longrightarrow> columnHasPaperColor x paperColor img"
      using right by (auto simp: columnHasPaperColor_iff)
    show "\<not> columnHasPaperColor r paperColor img"
      using cr by (auto simp: columnHasPaperColor_iff)
  qed (use l in auto)
  have st: "scanTop 0 paperColor img = t"
  proof (rule scanTop_stop)
    show "\<forall>y. 0 \<le> y \<and> y < t \<longrightarrow> rowHasPaperColor y paperColor img"
      using top by (auto simp: rowHasPaperColor_iff)
    show "\<not> rowHasPaperColor t paperColor img"
      using ct by (auto simp: rowHasPaperColor_iff)
  qed (use t in auto)
  have sb: "scanBottom (img_height img - 1) t paperColor img = b"
  proof (rule scanBottom_stop)
    show "\<forall>y. b < y \<and> y \<le> img_height img - 1 \<longrightarrow> rowHasPaperColor y paperColor img"
      using bottom by (auto simp: rowHasPaperColor_iff)
    show "\<not> rowHasPaperColor b paperColor img"
      using cb by (auto simp: rowHasPaperColor_iff)
  qed (use t in auto)
  show ?thesis using w h by (simp add: trimMargins_def QImage_isNull_def Let_def sl sr st sb)
qed

lemma ddiv_lit:
  "ddiv 9 100 = fl64 (9 / 100)" "ddiv 85 100 = fl64 (85 / 100)"
  "ddiv 47 100 = fl64 (47 / 100)" "ddiv 2 100 = fl64 (2 / 100)"
  by (simp_all add: ddiv_def)

lemma dotImage_trimmed:
  "trimMargins Qt_white dotImage =
           \<lparr>rectf_x = fl64 (47 / 100), rectf_y = fl64 (47 / 100),
            rectf_width = fl64 (2 / 100), rectf_height = fl64 (2 / 100)\<rparr>"
proof -
  have "trimMargins Qt_white dotImage =
     \<lparr>rectf_x = roundDown (ddiv (of_int32 50) (of_int32 (img_width dotImage)))
                          cropBoxPrecision cropBoxTolerance,
      rectf_y = roundDown (ddiv (of_int32 50) (of_int32 (img_height dotImage)))
                          cropBoxPrecision cropBoxTolerance,
      rectf_width = roundUp (ddiv (of_int32 (50 - 50 + 1)) (of_int32 (img_width dotImage)))
                            cropBoxPrecision cropBoxTolerance,
      rectf_height = roundUp (ddiv (of_int32 (50 - 50 + 1)) (of_int32 (img_height dotImage)))
                             cropBoxPrecision cropBoxTolerance\<rparr>"
    by (rule trimMargins_bounds)
       (auto simp: dotImage_def fromRgb_white fromRgb_black intro: exI[of _ 50])
  then have "trimMargins Qt_white dotImage =
     \<lparr>rectf_x = roundDown (ddiv (of_int32 50) (of_int32 100)) cropBoxPrecision cropBoxTolerance,
      rectf_y = roundDown (ddiv (of_int32 50) (of_int32 100)) cropBoxPrecision cropBoxTolerance,
      rectf_width = roundUp (ddiv (of_int32 1) (of_int32 100)) cropBoxPrecision cropBoxTolerance,
      rectf_height = roundUp (ddiv (of_int32 1) (of_int32 100)) cropBoxPrecision cropBoxTolerance\<rparr>"
    by (simp add: dotImage_def)
  then show ?thesis by (simp only: roundDown_50_100 roundUp_1_100 ddiv_lit)
qed

lemma borderImage_trimmed:
  "trimMargins Qt_white borderImage =
           \<lparr>rectf_x = fl64 (9 / 100), rectf_y = fl64 (9 / 100),
            rectf_width = fl64 (85 / 100), rectf_height = fl64 (85 / 100)\<rparr>"
proof -
  have "trimMargins Qt_white borderImage =
     \<lparr>rectf_x = roundDown (ddiv (of_int32 10) (of_int32 (img_width borderImage)))
                          cropBoxPrecision cropBoxTolerance,
      rectf_y = roundDown (ddiv (of_int32 10) (of_int32 (img_height borderImage)))
                          cropBoxPrecision cropBoxTolerance,
      rectf_width = roundUp (ddiv (of_int32 (89 - 10 + 1)) (of_int32 (img_width borderImage)))
                            cropBoxPrecision cropBoxTolerance,
      rectf_height = roundUp (ddiv (of_int32 (89 - 10 + 1)) (of_int32 (img_height borderImage)))
                             cropBoxPrecision cropBoxTolerance\<rparr>"
    by (rule trimMargins_bounds)
       (auto simp: borderImage_def fromRgb_white fromRgb_black intro: exI[of _ 10])
  then have "trimMargins Qt_white borderImage =
     \<lparr>rectf_x = roundDown (ddiv (of_int32 10) (of_int32 100)) cropBoxPrecision cropBoxTolerance,
      rectf_y = roundDown (ddiv (of_int32 10) (of_int32 100)) cropBoxPrecision cropBoxTolerance,
      rectf_width = roundUp (ddiv (of_int32 80) (of_int32 100)) cropBoxPrecision cropBoxTolerance,
      rectf_height = roundUp (ddiv (of_int32 80) (of_int32 100)) cropBoxPrecision cropBoxTolerance\<rparr>"
    by (simp add: borderImage_def)
  then show ?thesis by (simp only: roundDown_10_100 roundUp_80_100 ddiv_lit)
qed

text \<open>
  C9. For an image that is not empty and whose pixels all equal the paper colour, the scans
  from the left and from the top run to the width and the height, the scans from the right and
  from the bottom stop at once at width - 1 and height - 1, and \<open>trimMargins\<close> returns the
  rectangle (0.95, 0.95, 0, 0) of size zero, 0.95 being the double \<open>fl64 (95 / 100)\<close>.
\<close>

theorem trimMargins_uniform:
  assumes "0 < img_width img" and "0 < img_height img"
    and "\<forall>x y. 0 \<le> x \<and> x < img_width img \<and> 0 \<le> y \<and> y < img_height img
           \<longrightarrow> QColor_fromRgb (img_pixel img x y) = paperColor"
  shows "trimMargins paperColor img
           = \<lparr>rectf_x = fl64 (95 / 100), rectf_y = fl64 (95 / 100), rectf_width = 0, rectf_height = 0\<rparr>
       \<and> scanLeft 0 paperColor img = img_width img
       \<and> scanRight (img_width img - 1) (img_width img) paperColor img = img_width img - 1
       \<and> scanTop 0 paperColor img = img_height img
       \<and> scanBottom (img_height img - 1) (img_height img) paperColor img = img_height img - 1"
proof -
  have cols: "\<forall>x. 0 \<le> x \<and> x < img_width img \<longrightarrow> columnHasPaperColor x paperColor img"
    using assms(3) by (auto simp: columnHasPaperColor_iff)
  have rows: "\<forall>y. 0 \<le> y \<and> y < img_height img \<longrightarrow> rowHasPaperColor y paperColor img"
    using assms(3) by (auto simp: rowHasPaperColor_iff)
  have l: "scanLeft 0 paperColor img = img_width img"
    using assms(1) cols by (intro scanLeft_all) auto
  have r: "scanRight (img_width img - 1) (img_width img) paperColor img = img_width img - 1"
    by (rule scanRight_none) simp
  have t: "scanTop 0 paperColor img = img_height img"
    using assms(2) rows by (intro scanTop_all) auto
  have b: "scanBottom (img_height img - 1) (img_height img) paperColor img = img_height img - 1"
    by (rule scanBottom_none) simp
  have w: "ddiv (of_int32 (img_width img)) (of_int32 (img_width img)) = 1"
    using assms(1) by (intro ddiv_same) simp
  have h: "ddiv (of_int32 (img_height img)) (of_int32 (img_height img)) = 1"
    using assms(2) by (intro ddiv_same) simp
  have "trimMargins paperColor img
           = \<lparr>rectf_x = fl64 (95 / 100), rectf_y = fl64 (95 / 100), rectf_width = 0, rectf_height = 0\<rparr>"
    using assms(1,2)
    by (simp add: trimMargins_def QImage_isNull_def Let_def l r t b w h ddiv_zero roundDown_one
        roundUp_zero)
  with l r t b show ?thesis by simp
qed

theorem trimMargins_uniform_witness:
  "0 < img_width whiteImage \<and> 0 < img_height whiteImage
   \<and> trimMargins Qt_white whiteImage
       = \<lparr>rectf_x = fl64 (95 / 100), rectf_y = fl64 (95 / 100), rectf_width = 0, rectf_height = 0\<rparr>"
  using trimMargins_uniform [of whiteImage Qt_white]
  by (simp add: whiteImage_def fromRgb_white)

text \<open>
  C7, as the code has it. For an image of 100 by 100 pixels whose border of 10 pixels is
  white on all four sides and whose columns 10 and 89 and rows 10 and 89 each hold a pixel
  that is not white, \<open>trimMargins\<close> with the paper colour white returns the left and top
  fractions 10/100 rounded down and the width and height fractions 80/100 rounded up, which
  in the double arithmetic of the code are 0.09, 0.09, 0.85 and 0.85: the product
  \<open>(1.0 + 0.05) * 0.8 * 100.0\<close> is the double just above 84, whose ceiling is 85.
\<close>

theorem trimMargins_border:
  assumes "img_width img = 100" and "img_height img = 100"
    and "\<forall>x y. 0 \<le> x \<and> x < 100 \<and> 0 \<le> y \<and> y < 100 \<and> (x < 10 \<or> 90 \<le> x \<or> y < 10 \<or> 90 \<le> y)
           \<longrightarrow> QColor_fromRgb (img_pixel img x y) = Qt_white"
    and "\<exists>y. 0 \<le> y \<and> y < 100 \<and> QColor_fromRgb (img_pixel img 10 y) \<noteq> Qt_white"
    and "\<exists>y. 0 \<le> y \<and> y < 100 \<and> QColor_fromRgb (img_pixel img 89 y) \<noteq> Qt_white"
    and "\<exists>x. 0 \<le> x \<and> x < 100 \<and> QColor_fromRgb (img_pixel img x 10) \<noteq> Qt_white"
    and "\<exists>x. 0 \<le> x \<and> x < 100 \<and> QColor_fromRgb (img_pixel img x 89) \<noteq> Qt_white"
  shows "trimMargins Qt_white img =
           \<lparr>rectf_x = roundDown (ddiv (of_int32 10) (of_int32 100)) cropBoxPrecision cropBoxTolerance,
            rectf_y = roundDown (ddiv (of_int32 10) (of_int32 100)) cropBoxPrecision cropBoxTolerance,
            rectf_width = roundUp (ddiv (of_int32 80) (of_int32 100)) cropBoxPrecision cropBoxTolerance,
            rectf_height = roundUp (ddiv (of_int32 80) (of_int32 100)) cropBoxPrecision cropBoxTolerance\<rparr>
       \<and> trimMargins Qt_white img =
           \<lparr>rectf_x = fl64 (9 / 100), rectf_y = fl64 (9 / 100),
            rectf_width = fl64 (85 / 100), rectf_height = fl64 (85 / 100)\<rparr>"
proof -
  have "trimMargins Qt_white img =
     \<lparr>rectf_x = roundDown (ddiv (of_int32 10) (of_int32 (img_width img)))
                          cropBoxPrecision cropBoxTolerance,
      rectf_y = roundDown (ddiv (of_int32 10) (of_int32 (img_height img)))
                          cropBoxPrecision cropBoxTolerance,
      rectf_width = roundUp (ddiv (of_int32 (89 - 10 + 1)) (of_int32 (img_width img)))
                            cropBoxPrecision cropBoxTolerance,
      rectf_height = roundUp (ddiv (of_int32 (89 - 10 + 1)) (of_int32 (img_height img)))
                             cropBoxPrecision cropBoxTolerance\<rparr>"
    using assms by (intro trimMargins_bounds) auto
  then have a: "trimMargins Qt_white img =
           \<lparr>rectf_x = roundDown (ddiv (of_int32 10) (of_int32 100)) cropBoxPrecision cropBoxTolerance,
            rectf_y = roundDown (ddiv (of_int32 10) (of_int32 100)) cropBoxPrecision cropBoxTolerance,
            rectf_width = roundUp (ddiv (of_int32 80) (of_int32 100)) cropBoxPrecision cropBoxTolerance,
            rectf_height = roundUp (ddiv (of_int32 80) (of_int32 100)) cropBoxPrecision cropBoxTolerance\<rparr>"
    using assms(1,2) by simp
  then show ?thesis by (simp only: roundDown_10_100 roundUp_80_100 ddiv_lit simp_thms)
qed

theorem trimMargins_border_witness:
  "trimMargins Qt_white borderImage =
           \<lparr>rectf_x = fl64 (9 / 100), rectf_y = fl64 (9 / 100),
            rectf_width = fl64 (85 / 100), rectf_height = fl64 (85 / 100)\<rparr>"
proof -
  have "\<exists>y. 0 \<le> y \<and> y < 100 \<and> QColor_fromRgb (img_pixel borderImage 10 y) \<noteq> Qt_white"
    by (rule exI[of _ 10]) (simp add: borderImage_def fromRgb_black)
  moreover have "\<exists>y. 0 \<le> y \<and> y < 100 \<and> QColor_fromRgb (img_pixel borderImage 89 y) \<noteq> Qt_white"
    by (rule exI[of _ 10]) (simp add: borderImage_def fromRgb_black)
  moreover have "\<exists>x. 0 \<le> x \<and> x < 100 \<and> QColor_fromRgb (img_pixel borderImage x 10) \<noteq> Qt_white"
    by (rule exI[of _ 10]) (simp add: borderImage_def fromRgb_black)
  moreover have "\<exists>x. 0 \<le> x \<and> x < 100 \<and> QColor_fromRgb (img_pixel borderImage x 89) \<noteq> Qt_white"
    by (rule exI[of _ 10]) (simp add: borderImage_def fromRgb_black)
  moreover have "\<forall>x y. 0 \<le> x \<and> x < 100 \<and> 0 \<le> y \<and> y < 100 \<and> (x < 10 \<or> 90 \<le> x \<or> y < 10 \<or> 90 \<le> y)
           \<longrightarrow> QColor_fromRgb (img_pixel borderImage x y) = Qt_white"
    by (auto simp: borderImage_def fromRgb_white)
  moreover have "img_width borderImage = 100" "img_height borderImage = 100"
    by (simp_all add: borderImage_def)
  ultimately show ?thesis using trimMargins_border [of borderImage] by blast
qed

theorem trimMargins_border_counterexample:
  "img_width dotImage = 100 \<and> img_height dotImage = 100
   \<and> QColor_fromRgb (img_pixel dotImage 50 50) \<noteq> Qt_white
   \<and> trimMargins Qt_white dotImage
       \<noteq> \<lparr>rectf_x = of_int \<lfloor>95 / 100 * 10 :: rat\<rfloor> / 100, rectf_y = of_int \<lfloor>95 / 100 * 10 :: rat\<rfloor> / 100,
           rectf_width = of_int \<lceil>105 / 100 * 80 :: rat\<rceil> / 100,
           rectf_height = of_int \<lceil>105 / 100 * 80 :: rat\<rceil> / 100\<rparr>
   \<and> img_width borderImage = 100 \<and> img_height borderImage = 100
   \<and> trimMargins Qt_white borderImage
       \<noteq> \<lparr>rectf_x = of_int \<lfloor>95 / 100 * 10 :: rat\<rfloor> / 100, rectf_y = of_int \<lfloor>95 / 100 * 10 :: rat\<rfloor> / 100,
           rectf_width = of_int \<lceil>105 / 100 * 80 :: rat\<rceil> / 100,
           rectf_height = of_int \<lceil>105 / 100 * 80 :: rat\<rceil> / 100\<rparr>
   \<and> rectf_width (trimMargins Qt_white borderImage) = fl64 (85 / 100)
   \<and> fl64 (85 / 100) \<noteq> fl64 (84 / 100)"
proof -
  have d: "trimMargins Qt_white dotImage
       \<noteq> \<lparr>rectf_x = of_int \<lfloor>95 / 100 * 10 :: rat\<rfloor> / 100, rectf_y = of_int \<lfloor>95 / 100 * 10 :: rat\<rfloor> / 100,
           rectf_width = of_int \<lceil>105 / 100 * 80 :: rat\<rceil> / 100,
           rectf_height = of_int \<lceil>105 / 100 * 80 :: rat\<rceil> / 100\<rparr>"
    unfolding dotImage_trimmed fl64_47_100 fl64_2_100 by simp
  have b: "trimMargins Qt_white borderImage
       \<noteq> \<lparr>rectf_x = of_int \<lfloor>95 / 100 * 10 :: rat\<rfloor> / 100, rectf_y = of_int \<lfloor>95 / 100 * 10 :: rat\<rfloor> / 100,
           rectf_width = of_int \<lceil>105 / 100 * 80 :: rat\<rceil> / 100,
           rectf_height = of_int \<lceil>105 / 100 * 80 :: rat\<rceil> / 100\<rparr>"
    unfolding borderImage_trimmed fl64_9_100 fl64_85_100 by simp
  have w: "rectf_width (trimMargins Qt_white borderImage) = fl64 (85 / 100)"
    unfolding borderImage_trimmed by simp
  have n: "fl64 (85 / 100) \<noteq> fl64 (84 / 100)"
    unfolding fl64_85_100 fl64_84_100 by simp
  have "img_width dotImage = 100" "img_height dotImage = 100"
    "img_width borderImage = 100" "img_height borderImage = 100"
    "QColor_fromRgb (img_pixel dotImage 50 50) \<noteq> Qt_white"
    by (simp_all add: dotImage_def borderImage_def fromRgb_black)
  with d b w n show ?thesis by blast
qed

text \<open>
  C6 at a failing input. Margin trimming is not requested (the trim-margins setting of the
  program is off), the task is started on demand for the example tile and no checkpoint sees
  a cancellation. The specification gives the image and \<open>finished\<close>. The code emits the crop
  box between them: \<open>run\<close> does not read the setting, the guard in the source is the constant
  \<open>true\<close>.
\<close>

theorem run_cropBox_unrequested:
  "fst (run (exampleTask False) examplePage NotCanceled NotCanceled NotCanceled)
     = [imageReady exampleParam exampleRect False borderImage,
        cropBoxReady exampleParam exampleRect
          \<lparr>rectf_x = fl64 (9 / 100), rectf_y = fl64 (9 / 100),
           rectf_width = fl64 (85 / 100), rectf_height = fl64 (85 / 100)\<rparr>,
        finished]
   \<and> run_specified False (exampleTask False) examplePage NotCanceled NotCanceled NotCanceled
     = [imageReady exampleParam exampleRect False borderImage, finished]
   \<and> fst (run (exampleTask False) examplePage NotCanceled NotCanceled NotCanceled)
     \<noteq> run_specified False (exampleTask False) examplePage NotCanceled NotCanceled NotCanceled"
proof -
  have i: "borderImage\<lparr>img_devicePixelRatio := devicePixelRatio (resolution exampleParam)\<rparr>
             = borderImage"
    by (simp add: borderImage_def exampleParam_def)
  have t: "\<not> testCancellation NotCanceled False"
    by (simp add: testCancellation_def)
  have p: "\<not> invertColors exampleParam"
    by (simp add: exampleParam_def)
  have r: "fst (run (exampleTask False) examplePage NotCanceled NotCanceled NotCanceled)
             = [imageReady exampleParam exampleRect False borderImage,
                cropBoxReady exampleParam exampleRect (trimMargins Qt_white borderImage),
                finished]"
    by (simp add: run_def finish_def Let_def exampleTask_def examplePage_def t i p)
  have s: "run_specified False (exampleTask False) examplePage NotCanceled NotCanceled
             NotCanceled
             = [imageReady exampleParam exampleRect False borderImage, finished]"
    by (simp add: run_specified_def Let_def exampleTask_def examplePage_def t i p)
  show ?thesis
    unfolding r s borderImage_trimmed by simp
qed

section \<open>The cost of the entries of the shared cache\<close>

lemma pixmapKey_update [simp]:
  "pixmapKey (t\<lparr>m_obsoletePixmap := p\<rparr>) = pixmapKey t"
  "pixmapKey (t\<lparr>m_pixmap := p\<rparr>) = pixmapKey t"
  "pixmapKey (t\<lparr>m_pixmapError := b\<rparr>) = pixmapKey t"
  "pixmapKey (t\<lparr>m_renderTask := task\<rparr>) = pixmapKey t"
  by (simp_all add: pixmapKey_def)

lemma trim_entries_Nil: "trim_entries m [] = []"
  by (subst trim_entries.simps) simp

lemma trim_entries_bound: "0 \<le> m \<Longrightarrow> totalCost_of (trim_entries m es) \<le> m"
proof (induction m es rule: trim_entries.induct)
  case (1 m es)
  show ?case
  proof (cases "es \<noteq> [] \<and> m < totalCost_of es")
    case True
    with 1 show ?thesis by (subst trim_entries.simps) simp
  next
    case False
    with 1(2) show ?thesis by (subst trim_entries.simps) (auto simp: totalCost_of_def)
  qed
qed

lemma trim_entries_keep: "\<not> m < totalCost_of es \<Longrightarrow> trim_entries m es = es"
  by (subst trim_entries.simps) simp

lemma trim_entries_drop:
  "m < totalCost_of (es @ [e]) \<Longrightarrow> trim_entries m (es @ [e]) = trim_entries m es"
  by (subst trim_entries.simps) simp

text \<open>
  The cache on the scenario of the specification: with the maximum cost 10 MB, three
  insertions of 4 MB each evict the entry inserted first.
\<close>

lemma three_insertions_evict_first:
  "k1 \<noteq> k2 \<Longrightarrow> k1 \<noteq> k3 \<Longrightarrow> k2 \<noteq> k3 \<Longrightarrow>
   QCache_insert (QCache_insert (QCache_insert \<lparr>mx = 10485760, entries = []\<rparr> k1 p1 4194304)
                                k2 p2 4194304) k3 p3 4194304
     = \<lparr>mx = 10485760, entries = [(k3, p3, 4194304), (k2, p2, 4194304)]\<rparr>"
proof -
  assume k: "k1 \<noteq> k2" "k1 \<noteq> k3" "k2 \<noteq> k3"
  have a: "QCache_insert \<lparr>mx = 10485760, entries = []\<rparr> k1 p1 4194304
             = \<lparr>mx = 10485760, entries = [(k1, p1, 4194304)]\<rparr>"
    by (simp add: QCache_insert_def QCache_remove_def QCache_trim_def trim_entries_Nil)
  have b: "QCache_insert \<lparr>mx = 10485760, entries = [(k1, p1, 4194304)]\<rparr> k2 p2 4194304
             = \<lparr>mx = 10485760, entries = [(k2, p2, 4194304), (k1, p1, 4194304)]\<rparr>"
    using k by (simp add: QCache_insert_def QCache_remove_def QCache_trim_def trim_entries_keep
        totalCost_of_def)
  have "trim_entries 6291456 ([(k2, p2, 4194304)] @ [(k1, p1, 4194304)]) = [(k2, p2, 4194304)]"
    by (subst trim_entries_drop) (simp_all add: totalCost_of_def trim_entries_keep)
  then have c: "QCache_insert \<lparr>mx = 10485760, entries = [(k2, p2, 4194304), (k1, p1, 4194304)]\<rparr>
                  k3 p3 4194304
             = \<lparr>mx = 10485760, entries = [(k3, p3, 4194304), (k2, p2, 4194304)]\<rparr>"
    using k by (simp add: QCache_insert_def QCache_remove_def QCache_trim_def)
  show ?thesis by (simp only: a b c)
qed

text \<open>
  After an insertion that the cache admits, the costs it has recorded sum to at most the
  maximum cost, whatever it held before.
\<close>

lemma insert_admitted_bound:
  assumes "cost \<le> QCache_maxCost c"
  shows "QCache_totalCost (QCache_insert c k pixmap cost)
           \<le> QCache_maxCost (QCache_insert c k pixmap cost)"
proof -
  have "totalCost_of (trim_entries (mx c - cost) (filter (\<lambda>e. fst e \<noteq> k) (entries c)))
          \<le> mx c - cost"
    using assms by (intro trim_entries_bound) (simp add: QCache_maxCost_def)
  then show ?thesis using assms
    by (simp add: QCache_insert_def QCache_remove_def QCache_trim_def QCache_maxCost_def
        QCache_totalCost_def totalCost_of_def Let_def)
qed

text \<open>
  The cost the source records for a buffer is its size in bytes as long as width times height
  times depth stays below \<open>2\<^sup>3\<^sup>1\<close>.
\<close>

lemma wrap32_id: "- 2147483648 \<le> i \<Longrightarrow> i < 2147483648 \<Longrightarrow> wrap32 i = i"
  by (simp add: wrap32_def)

lemma cost_is_bufferBytes:
  assumes "0 \<le> pm_width p" and "0 \<le> pm_height p" and "0 \<le> pm_depth p"
    and "pm_width p * pm_height p * pm_depth p < 2147483648"
  shows "int_div (mul32 (mul32 (pm_width p) (pm_height p)) (pm_depth p)) 8 = bufferBytes p"
proof (cases "pm_depth p = 0")
  case True
  then show ?thesis by (simp add: mul32_def wrap32_def int_div_def bufferBytes_def)
next
  case False
  with assms(3) have d: "1 \<le> pm_depth p" by simp
  have wh: "0 \<le> pm_width p * pm_height p" using assms(1,2) by simp
  then have "pm_width p * pm_height p * 1 \<le> pm_width p * pm_height p * pm_depth p"
    using d by (intro mult_left_mono) simp_all
  with assms(4) have "pm_width p * pm_height p < 2147483648" by simp
  with wh have a: "mul32 (pm_width p) (pm_height p) = pm_width p * pm_height p"
    by (simp add: mul32_def wrap32_id)
  have "0 \<le> pm_width p * pm_height p * pm_depth p" using wh assms(3) by simp
  with assms(4) have b: "mul32 (pm_width p * pm_height p) (pm_depth p)
                           = pm_width p * pm_height p * pm_depth p"
    by (simp add: mul32_def wrap32_id)
  have "int_div x 8 = x div 8" if "0 \<le> x" for x :: int
    using that by (cases "x = 0") (simp_all add: int_div_def)
  with \<open>0 \<le> pm_width p * pm_height p * pm_depth p\<close> show ?thesis
    by (simp add: a b bufferBytes_def)
qed

text \<open>
  C5 at a failing input. The cost of an entry in the words of the specification is the size
  of its pixel buffer, \<open>bufferBytes\<close>, and the resident cost of the cache their sum,
  \<open>residentBytes\<close>. A prefetch completes with an image of 8192 by 8192 pixels of 32 bits for a
  tile whose cache is empty and has a maximum cost below 256 MB. The product of width, height
  and depth wraps around to \<open>-2\<^sup>3\<^sup>1\<close>, so the handler inserts the pixmap with the cost
  -268435456, which is not above the maximum: the cache admits it. It then holds one entry
  with a pixel buffer of 268435456 bytes, more than the maximum cost, and the total of the
  costs it has recorded is negative.
\<close>

theorem cache_cost_overflow:
  assumes "m_renderParam (parentPage (tile st)) = renderParam" and "m_rect (tile st) = rect"
    and "\<not> wasCanceledForcibly (m_renderTask (tile st))"
    and "img_width img = 8192" and "img_height img = 8192" and "img_depth img = 32"
    and "entries (s_cache st) = []"
    and "0 \<le> QCache_maxCost (s_cache st)" and "QCache_maxCost (s_cache st) < 268435456"
  shows "entries (s_cache (on_renderTask_imageReady st renderParam rect True img))
           = [(pixmapKey (tile st), QPixmap_fromImage img, - 268435456)]
         \<and> QCache_maxCost (s_cache (on_renderTask_imageReady st renderParam rect True img))
             = QCache_maxCost (s_cache st)
         \<and> QCache_totalCost (s_cache (on_renderTask_imageReady st renderParam rect True img))
             = - 268435456
         \<and> residentBytes (s_cache (on_renderTask_imageReady st renderParam rect True img))
             = 268435456
         \<and> \<not> residentBytes (s_cache (on_renderTask_imageReady st renderParam rect True img))
               \<le> QCache_maxCost (s_cache (on_renderTask_imageReady st renderParam rect True img))"
proof -
  have n: "\<not> QImage_isNull img"
    by (simp add: QImage_isNull_def assms(4,5))
  have cost: "int_div (mul32 (mul32 (img_width img) (img_height img)) (img_depth img)) 8
                = - 268435456"
    by (simp add: assms(4,5,6) mul32_def wrap32_def int_div_def)
  have le: "\<not> mx (s_cache st) < - 268435456"
    using assms(8) by (simp add: QCache_maxCost_def)
  have ins: "QCache_insert (s_cache st) (pixmapKey (tile st)) (QPixmap_fromImage img)
               (- 268435456)
             = (s_cache st)\<lparr>entries := [(pixmapKey (tile st), QPixmap_fromImage img,
                                          - 268435456)]\<rparr>"
    using le by (simp add: QCache_insert_def QCache_remove_def QCache_trim_def assms(7)
        trim_entries_Nil)
  have s: "s_cache (on_renderTask_imageReady st renderParam rect True img)
             = (s_cache st)\<lparr>entries := [(pixmapKey (tile st), QPixmap_fromImage img,
                                          - 268435456)]\<rparr>"
    using assms(1,2,3) n by (simp add: on_renderTask_imageReady_def cost ins)
  have b: "bufferBytes (QPixmap_fromImage img) = 268435456"
    by (simp add: bufferBytes_def QPixmap_fromImage_def assms(4,5,6))
  show ?thesis
    using assms(9)
    by (simp add: s b QCache_maxCost_def QCache_totalCost_def totalCost_of_def
        residentBytes_def)
qed

theorem cache_cost_overflow_witness:
  "m_renderParam (parentPage (tile exampleState)) = exampleParam
   \<and> m_rect (tile exampleState) = exampleRect
   \<and> \<not> wasCanceledForcibly (m_renderTask (tile exampleState))
   \<and> img_width bigImage = 8192 \<and> img_height bigImage = 8192 \<and> img_depth bigImage = 32
   \<and> entries (s_cache exampleState) = []
   \<and> QCache_maxCost (s_cache exampleState) = 33554432
   \<and> entries (s_cache (on_renderTask_imageReady exampleState exampleParam exampleRect True
                          bigImage))
       = [(pixmapKey (tile exampleState), QPixmap_fromImage bigImage, - 268435456)]
   \<and> QCache_maxCost (s_cache (on_renderTask_imageReady exampleState exampleParam exampleRect
                                 True bigImage)) = 33554432
   \<and> QCache_totalCost (s_cache (on_renderTask_imageReady exampleState exampleParam exampleRect
                                   True bigImage)) = - 268435456
   \<and> residentBytes (s_cache (on_renderTask_imageReady exampleState exampleParam exampleRect
                                True bigImage)) = 268435456
   \<and> \<not> residentBytes (s_cache (on_renderTask_imageReady exampleState exampleParam exampleRect
                                  True bigImage))
         \<le> QCache_maxCost (s_cache (on_renderTask_imageReady exampleState exampleParam
                                      exampleRect True bigImage))"
proof -
  have h: "m_renderParam (parentPage (tile exampleState)) = exampleParam"
    "m_rect (tile exampleState) = exampleRect"
    "\<not> wasCanceledForcibly (m_renderTask (tile exampleState))"
    "img_width bigImage = 8192" "img_height bigImage = 8192" "img_depth bigImage = 32"
    "entries (s_cache exampleState) = []"
    "QCache_maxCost (s_cache exampleState) = 33554432"
    by (simp_all add: exampleState_def exampleTile_def examplePageItem_def exampleTask_def
        wasCanceledForcibly_def loadWasCanceled_def NotCanceled_def CanceledForcibly_def
        bigImage_def QCache_empty_def QCache_maxCost_def)
  from cache_cost_overflow [of exampleState exampleParam exampleRect bigImage] h
  show ?thesis by simp
qed

section \<open>The tile: completion of a render, starting a render, painting\<close>

lemma exampleState_matches:
  "m_renderParam (parentPage (tile exampleState)) = exampleParam"
  "m_rect (tile exampleState) = exampleRect"
  "m_renderParam (parentPage (tile forcedState)) = exampleParam"
  "m_rect (tile forcedState) = exampleRect"
  "m_wasCanceled (m_renderTask (tile exampleState)) = NotCanceled"
  "m_wasCanceled (m_renderTask (tile forcedState)) = CanceledForcibly"
  "QCache_maxCost (s_cache exampleState) = 33554432"
  "entries (s_cache exampleState) = []"
  by (simp_all add: exampleState_def forcedState_def exampleTile_def examplePageItem_def
      exampleTask_def cancel_def setCancellation_def QCache_maxCost_def QCache_empty_def)

lemma borderImage_cost:
  "\<not> QImage_isNull borderImage"
  "int_div (mul32 (mul32 (img_width borderImage) (img_height borderImage))
                   (img_depth borderImage)) 8 = 40000"
  by (simp_all add: QImage_isNull_def borderImage_def int_div_def mul32_def wrap32_def)

lemma bigImage_cost:
  "\<not> QImage_isNull bigImage"
  "int_div (mul32 (mul32 (img_width bigImage) (img_height bigImage)) (img_depth bigImage)) 8
     = - 268435456"
  by (simp_all add: QImage_isNull_def bigImage_def int_div_def mul32_def wrap32_def)

text \<open>
  C4. A completion whose render parameters or rectangle differ from the current ones of the
  tile leaves the whole state as it is: the pixmap, the obsolete pixmap and the error flag of
  the tile, and the shared cache.
\<close>

theorem stale_result_discarded:
  "m_renderParam (parentPage (tile st)) \<noteq> renderParam \<or> m_rect (tile st) \<noteq> rect
   \<Longrightarrow> on_renderTask_imageReady st renderParam rect prefetch img = st"
  by (simp add: on_renderTask_imageReady_def)

theorem stale_result_discarded_witness:
  "m_renderParam (parentPage (tile exampleState)) \<noteq> exampleParam\<lparr>scaleFactor := 2\<rparr>
   \<and> on_renderTask_imageReady exampleState (exampleParam\<lparr>scaleFactor := 2\<rparr>) exampleRect True
        borderImage = exampleState"
  using stale_result_discarded [of exampleState "exampleParam\<lparr>scaleFactor := 2\<rparr>" exampleRect True
          borderImage]
  by (simp add: exampleState_def exampleTile_def examplePageItem_def exampleParam_def)

text \<open>
  C3. A completion that matches the tile and carries an image that is not null: for a
  prefetch the handler inserts the pixmap of the image into the shared cache under the key of
  the tile unless the task was cancelled forcibly (so also after a normal cancellation), and
  the cache then holds it whenever its cost does not exceed the maximum cost; after a forced
  cancellation the cache is left as it is. The cost is the one the source computes, in \<open>int\<close>
  of 32 bits: an image of 8192 by 8192 pixels of 32 bits is inserted with the cost -268435456
  and the cache holds it. For a render on demand the tile keeps the pixmap
  iff the task was not cancelled at all, and the cache is left as it is.
\<close>

theorem imageReady_cached_or_kept:
  assumes "m_renderParam (parentPage (tile st)) = renderParam" and "m_rect (tile st) = rect"
    and "\<not> QImage_isNull img"
  shows "(prefetch \<and> m_wasCanceled (m_renderTask (tile st)) \<noteq> CanceledForcibly \<longrightarrow>
            s_cache (on_renderTask_imageReady st renderParam rect prefetch img)
              = QCache_insert (s_cache st) (pixmapKey (tile st)) (QPixmap_fromImage img)
                  (int_div (mul32 (mul32 (img_width img) (img_height img)) (img_depth img)) 8)
          \<and> m_pixmap (tile (on_renderTask_imageReady st renderParam rect prefetch img))
              = m_pixmap (tile st))
       \<and> (prefetch \<and> m_wasCanceled (m_renderTask (tile st)) \<noteq> CanceledForcibly
          \<and> int_div (mul32 (mul32 (img_width img) (img_height img)) (img_depth img)) 8
               \<le> QCache_maxCost (s_cache st) \<longrightarrow>
            QCache_contains (s_cache (on_renderTask_imageReady st renderParam rect prefetch img))
              (pixmapKey (tile st))
          \<and> fst (QCache_object
                   (s_cache (on_renderTask_imageReady st renderParam rect prefetch img))
                   (pixmapKey (tile st))) = Some (QPixmap_fromImage img))
       \<and> (prefetch \<and> m_wasCanceled (m_renderTask (tile st)) = CanceledForcibly \<longrightarrow>
            s_cache (on_renderTask_imageReady st renderParam rect prefetch img) = s_cache st
          \<and> m_pixmap (tile (on_renderTask_imageReady st renderParam rect prefetch img))
              = m_pixmap (tile st))
       \<and> (\<not> prefetch \<and> m_wasCanceled (m_renderTask (tile st)) = NotCanceled \<longrightarrow>
            m_pixmap (tile (on_renderTask_imageReady st renderParam rect prefetch img))
              = QPixmap_fromImage img
          \<and> s_cache (on_renderTask_imageReady st renderParam rect prefetch img) = s_cache st)
       \<and> (\<not> prefetch \<and> m_wasCanceled (m_renderTask (tile st)) \<noteq> NotCanceled \<longrightarrow>
            m_pixmap (tile (on_renderTask_imageReady st renderParam rect prefetch img))
              = m_pixmap (tile st)
          \<and> s_cache (on_renderTask_imageReady st renderParam rect prefetch img) = s_cache st)"
  using assms
  by (auto simp: on_renderTask_imageReady_def Let_def wasCanceledForcibly_def wasCanceled_def
      loadWasCanceled_def CanceledForcibly_def NotCanceled_def QCache_insert_def QCache_maxCost_def
      QCache_remove_def QCache_trim_def QCache_contains_def QCache_object_def)

theorem imageReady_cached_or_kept_witness:
  "m_renderParam (parentPage (tile exampleState)) = exampleParam
   \<and> m_rect (tile exampleState) = exampleRect \<and> \<not> QImage_isNull borderImage
   \<and> m_wasCanceled (m_renderTask (tile exampleState)) = NotCanceled
   \<and> m_wasCanceled (m_renderTask (tile forcedState)) = CanceledForcibly
   \<and> QCache_contains
        (s_cache (on_renderTask_imageReady exampleState exampleParam exampleRect True borderImage))
        (pixmapKey (tile exampleState))
   \<and> \<not> QImage_isNull bigImage
   \<and> s_cache (on_renderTask_imageReady exampleState exampleParam exampleRect True bigImage)
       = QCache_insert (s_cache exampleState) (pixmapKey (tile exampleState))
           (QPixmap_fromImage bigImage) (- 268435456)
   \<and> QCache_contains
        (s_cache (on_renderTask_imageReady exampleState exampleParam exampleRect True bigImage))
        (pixmapKey (tile exampleState))
   \<and> s_cache (on_renderTask_imageReady forcedState exampleParam exampleRect True borderImage)
       = s_cache forcedState
   \<and> m_pixmap (tile (on_renderTask_imageReady exampleState exampleParam exampleRect False
                        borderImage)) = QPixmap_fromImage borderImage
   \<and> m_pixmap (tile (on_renderTask_imageReady forcedState exampleParam exampleRect False
                        borderImage)) = m_pixmap (tile forcedState)"
proof -
  have e1: "m_renderParam (parentPage (tile exampleState)) = exampleParam"
    and e2: "m_rect (tile exampleState) = exampleRect"
    and f1: "m_renderParam (parentPage (tile forcedState)) = exampleParam"
    and f2: "m_rect (tile forcedState) = exampleRect"
    and n: "\<not> QImage_isNull borderImage"
    by (simp_all add: exampleState_matches borderImage_cost)
  have en: "m_wasCanceled (m_renderTask (tile exampleState)) = NotCanceled"
    and ef: "m_wasCanceled (m_renderTask (tile exampleState)) \<noteq> CanceledForcibly"
    and ff: "m_wasCanceled (m_renderTask (tile forcedState)) = CanceledForcibly"
    and fn: "m_wasCanceled (m_renderTask (tile forcedState)) \<noteq> NotCanceled"
    by (simp_all add: exampleState_matches NotCanceled_def CanceledForcibly_def)
  have le: "int_div (mul32 (mul32 (img_width borderImage) (img_height borderImage))
                            (img_depth borderImage)) 8
              \<le> QCache_maxCost (s_cache exampleState)"
    by (simp add: exampleState_matches borderImage_cost)
  have nb: "\<not> QImage_isNull bigImage"
    by (simp add: bigImage_cost)
  have cb: "int_div (mul32 (mul32 (img_width bigImage) (img_height bigImage))
                            (img_depth bigImage)) 8 = - 268435456"
    by (simp add: bigImage_cost)
  have leb: "int_div (mul32 (mul32 (img_width bigImage) (img_height bigImage))
                             (img_depth bigImage)) 8
              \<le> QCache_maxCost (s_cache exampleState)"
    by (simp add: exampleState_matches bigImage_cost)
  have b1: "s_cache (on_renderTask_imageReady exampleState exampleParam exampleRect True bigImage)
       = QCache_insert (s_cache exampleState) (pixmapKey (tile exampleState))
           (QPixmap_fromImage bigImage) (- 268435456)"
    using imageReady_cached_or_kept [OF e1 e2 nb, of True] ef unfolding cb by blast
  have b2: "QCache_contains
        (s_cache (on_renderTask_imageReady exampleState exampleParam exampleRect True bigImage))
        (pixmapKey (tile exampleState))"
    using imageReady_cached_or_kept [OF e1 e2 nb, of True] ef leb by blast
  have c1: "QCache_contains
        (s_cache (on_renderTask_imageReady exampleState exampleParam exampleRect True borderImage))
        (pixmapKey (tile exampleState))"
    using imageReady_cached_or_kept [OF e1 e2 n, of True] ef le by blast
  have c2: "s_cache (on_renderTask_imageReady forcedState exampleParam exampleRect True borderImage)
       = s_cache forcedState"
    using imageReady_cached_or_kept [OF f1 f2 n, of True] ff by blast
  have c3: "m_pixmap (tile (on_renderTask_imageReady exampleState exampleParam exampleRect False
                        borderImage)) = QPixmap_fromImage borderImage"
    using imageReady_cached_or_kept [OF e1 e2 n, of False] en by blast
  have c4: "m_pixmap (tile (on_renderTask_imageReady forcedState exampleParam exampleRect False
                        borderImage)) = m_pixmap (tile forcedState)"
    using imageReady_cached_or_kept [OF f1 f2 n, of False] fn by blast
  from e1 e2 n en ff c1 nb b1 b2 c2 c3 c4 show ?thesis by blast
qed

text \<open>
  C8. \<open>startRender\<close> returns 0 and changes nothing (no task reaches the thread pool) when the
  error flag is set, or the task is running, or the call is a prefetch and the cache contains
  the key of the tile. In every other case it returns 1 and hands one task to the thread
  pool, started with the current render parameters of the page, the rectangle of the tile and
  the prefetch flag, running and not cancelled.
\<close>

theorem startRender_cases:
  "(m_pixmapError (tile st) \<or> isRunning (m_renderTask (tile st))
      \<or> (prefetch \<and> QCache_contains (s_cache st) (pixmapKey (tile st)))
     \<longrightarrow> startRender st prefetch = (0, st))
   \<and> (\<not> (m_pixmapError (tile st) \<or> isRunning (m_renderTask (tile st))
      \<or> (prefetch \<and> QCache_contains (s_cache st) (pixmapKey (tile st))))
     \<longrightarrow> (\<exists>task. startRender st prefetch
                  = (1, st\<lparr>tile := (tile st)\<lparr>m_renderTask := task\<rparr>,
                          threadPool := threadPool st @ [task]\<rparr>)
              \<and> RenderTask.m_renderParam task = m_renderParam (parentPage (tile st))
              \<and> RenderTask.m_rect task = m_rect (tile st)
              \<and> m_prefetch task = prefetch
              \<and> m_isRunning task \<and> m_wasCanceled task = NotCanceled))"
proof -
  let ?task = "(m_renderTask (tile st))\<lparr>RenderTask.m_renderParam :=
                    m_renderParam (parentPage (tile st)),
                  RenderTask.m_rect := m_rect (tile st), m_prefetch := prefetch,
                  m_isRunning := True, m_wasCanceled := NotCanceled\<rparr>"
  have "\<not> (m_pixmapError (tile st) \<or> isRunning (m_renderTask (tile st))
      \<or> (prefetch \<and> QCache_contains (s_cache st) (pixmapKey (tile st))))
     \<Longrightarrow> startRender st prefetch
           = (1, st\<lparr>tile := (tile st)\<lparr>m_renderTask := ?task\<rparr>,
                   threadPool := threadPool st @ [?task]\<rparr>)"
    by (simp add: startRender_def start_def Let_def resetCancellation_def)
  moreover have "RenderTask.m_renderParam ?task = m_renderParam (parentPage (tile st))
              \<and> RenderTask.m_rect ?task = m_rect (tile st)
              \<and> m_prefetch ?task = prefetch
              \<and> m_isRunning ?task \<and> m_wasCanceled ?task = NotCanceled"
    by simp
  moreover have "m_pixmapError (tile st) \<or> isRunning (m_renderTask (tile st))
      \<or> (prefetch \<and> QCache_contains (s_cache st) (pixmapKey (tile st)))
     \<Longrightarrow> startRender st prefetch = (0, st)"
    by (simp add: startRender_def)
  ultimately show ?thesis by blast
qed

theorem startRender_cases_witness:
  "\<not> (m_pixmapError (tile exampleState) \<or> isRunning (m_renderTask (tile exampleState))
      \<or> (True \<and> QCache_contains (s_cache exampleState) (pixmapKey (tile exampleState))))
   \<and> fst (startRender exampleState True) = 1
   \<and> length (threadPool (snd (startRender exampleState True))) = 1
   \<and> isRunning (m_renderTask (tile (snd (startRender exampleState True))))
   \<and> startRender (snd (startRender exampleState True)) True
       = (0, snd (startRender exampleState True))"
  using startRender_cases [of exampleState True]
        startRender_cases [of "snd (startRender exampleState True)" True]
  by (auto simp: exampleState_def exampleTile_def exampleTask_def isRunning_def QCache_contains_def
      QCache_empty_def)

text \<open>
  C10, as the code has it. When the cache has no entry for the key of the tile and the tile
  holds no pixmap, \<open>takePixmap\<close> returns the null pixmap and calls \<open>startRender(false)\<close>, and so
  does \<open>paint\<close>: a tile that has no error and no running task hands a task on demand to the
  thread pool. Meanwhile \<open>paint\<close> draws the obsolete pixmap if the tile retains one, and the
  progress icon only if it does not (and the tile has no error).
\<close>

theorem paint_starts_render:
  assumes "\<not> QCache_contains (s_cache st) (pixmapKey (tile st))"
    and "QPixmap_isNull (m_pixmap (tile st))"
  shows "takePixmap st = (QPixmap_null, snd (startRender st False))
       \<and> snd (paint st topLeft) = snd (startRender st False)
       \<and> (\<not> m_pixmapError (tile st) \<and> \<not> isRunning (m_renderTask (tile st)) \<longrightarrow>
            (\<exists>task. threadPool (snd (paint st topLeft)) = threadPool st @ [task]
                \<and> m_renderTask (tile (snd (paint st topLeft))) = task
                \<and> \<not> m_prefetch task \<and> m_isRunning task
                \<and> RenderTask.m_renderParam task = m_renderParam (parentPage (tile st))
                \<and> RenderTask.m_rect task = m_rect (tile st)))
       \<and> (\<not> QPixmap_isNull (m_obsoletePixmap (tile st)) \<longrightarrow>
            (\<exists>r. fst (paint st topLeft) = drawPixmapInto r (m_obsoletePixmap (tile st))))
       \<and> (QPixmap_isNull (m_obsoletePixmap (tile st)) \<and> \<not> m_pixmapError (tile st) \<longrightarrow>
            (\<exists>r. fst (paint st topLeft) = progressIcon r))"
  using assms
  by (auto simp: takePixmap_def paint_def startRender_def start_def Let_def QPixmap_isNull_def
      QPixmap_null_def split: prod.splits)

theorem paint_starts_render_witness:
  "\<not> QCache_contains (s_cache exampleState) (pixmapKey (tile exampleState))
   \<and> QPixmap_isNull (m_pixmap (tile exampleState))
   \<and> \<not> m_pixmapError (tile exampleState) \<and> \<not> isRunning (m_renderTask (tile exampleState))
   \<and> QPixmap_isNull (m_obsoletePixmap (tile exampleState))
   \<and> length (threadPool (snd (paint exampleState \<lparr>pt_x = 0, pt_y = 0\<rparr>))) = 1
   \<and> (\<exists>r. fst (paint exampleState \<lparr>pt_x = 0, pt_y = 0\<rparr>) = progressIcon r)"
  using paint_starts_render [of exampleState "\<lparr>pt_x = 0, pt_y = 0\<rparr>"]
  by (auto simp: exampleState_def exampleTile_def exampleTask_def isRunning_def QCache_contains_def
      QCache_empty_def QPixmap_isNull_def QPixmap_null_def)

lemma dadd_0_0: "dadd 0 0 = 0"
  by (simp add: dadd_def fl64_def)

theorem paint_progress_glyph_counterexample:
  "\<not> QCache_contains (s_cache obsoleteState) (pixmapKey (tile obsoleteState))
   \<and> QPixmap_isNull (m_pixmap (tile obsoleteState))
   \<and> \<not> m_pixmapError (tile obsoleteState) \<and> \<not> isRunning (m_renderTask (tile obsoleteState))
   \<and> length (threadPool (snd (paint obsoleteState \<lparr>pt_x = 0, pt_y = 0\<rparr>))) = 1
   \<and> fst (paint obsoleteState \<lparr>pt_x = 0, pt_y = 0\<rparr>)
       = drawPixmapInto \<lparr>rectf_x = 0, rectf_y = 0, rectf_width = 256, rectf_height = 256\<rparr>
           (QPixmap_fromImage borderImage)"
  by (auto simp: obsoleteState_def exampleState_def exampleTile_def exampleTask_def isRunning_def
      QCache_contains_def QCache_empty_def QPixmap_isNull_def QPixmap_null_def
      takePixmap_def paint_def startRender_def start_def Let_def QPixmap_fromImage_def
      borderImage_def exampleRect_def of_int32_def dadd_0_0 split: prod.splits)

section \<open>The cache key\<close>

lemma digits10_small: "n < 10 \<Longrightarrow> digits10 n = [digit_char n]"
  by (subst digits10.simps) simp

lemma digits10_large: "10 \<le> n \<Longrightarrow> digits10 n = digits10 (n div 10) @ [digit_char (n mod 10)]"
  by (subst digits10.simps) simp

lemma floor_half: "\<lfloor>1 / 2 :: rat\<rfloor> = 0"
  by (simp add: floor_eq_iff)

lemma qRound_0: "qRound (of_int32 0) = 0"
proof -
  have h: "dadd 0 (1 / 2) = 1 / 2"
    unfolding dadd_def
    by (subst fl64_eq[where k="-1" and m="4503599627370496"]) (simp_all add: roundHalfEven_def Let_def)
  show ?thesis unfolding qRound_def of_int32_def to_int_def of_int_0 h by (simp add: floor_half)
qed

lemma qRound_256: "qRound (of_int32 256) = 256"
proof -
  have h: "dadd 256 (1 / 2) = 513 / 2"
    unfolding dadd_def
    by (subst fl64_eq[where k="8" and m="4512395720392704"]) (simp_all add: roundHalfEven_def Let_def)
  show ?thesis unfolding qRound_def of_int32_def to_int_def of_int_numeral h by simp
qed

lemma fmt_d_vals: "fmt_d 72 = ''72''" "fmt_d 0 = ''0''" "fmt_d 256 = ''256''"
  by (simp_all add: fmt_d_def digits10_small digits10_large digit_char_def)

lemma replicate_5: "replicate 5 x = [x, x, x, x, x]"
  by (simp add: numeral_eq_Suc)

lemma fmt_f_1: "fmt_f 1 = ''1.000000''"
  by (simp add: fmt_f_def roundHalfEven_def Let_def digits10_small digits10_large digit_char_def replicate_5)

lemma fmt_f_zoomed: "fmt_f (4194305 / 4194304) = ''1.000000''"
  by (simp add: fmt_f_def roundHalfEven_def Let_def digits10_small digits10_large digit_char_def replicate_5)

lemma pixmapKey_exampleTile: "pixmapKey exampleTile = (1, ''72,72,1.000000,0,0,0,0,256,256'')"
  by (simp add: pixmapKey_def exampleTile_def examplePageItem_def exampleParam_def exampleRect_def
      Let_def Rotation_value_def qRound_0 qRound_256 fmt_d_vals fmt_f_1)

lemma scaled_1x: "scaledResolutionX exampleParam = 72"
proof -
  have a: "dmul 1 72 = 72"
    unfolding dmul_def
    by (subst fl64_eq[where k="6" and m="5066549580791808"]) (simp_all add: roundHalfEven_def Let_def)
  have b: "dmul 72 1 = 72"
    unfolding dmul_def
    by (subst fl64_eq[where k="6" and m="5066549580791808"]) (simp_all add: roundHalfEven_def Let_def)
  show ?thesis by (simp add: scaledResolutionX_def exampleParam_def of_int32_def a b)
qed

lemma scaled_2x: "scaledResolutionX (m_renderParam (parentPage exampleTile2x)) = 144"
proof -
  have a: "dmul 2 72 = 144"
    unfolding dmul_def
    by (subst fl64_eq[where k="7" and m="5066549580791808"]) (simp_all add: roundHalfEven_def Let_def)
  have b: "dmul 144 1 = 144"
    unfolding dmul_def
    by (subst fl64_eq[where k="7" and m="5066549580791808"]) (simp_all add: roundHalfEven_def Let_def)
  show ?thesis by (simp add: scaledResolutionX_def exampleTile2x_def exampleParam_def of_int32_def a b)
qed

text \<open>
  A number with at most 53 significant bits is not changed by rounding, so \<open>qRound\<close> returns
  every \<open>int\<close> as it is.
\<close>

lemma roundHalfEven_of_int: "roundHalfEven (of_int n) = n"
  by (simp add: roundHalfEven_def)

lemma fl64_exact:
  assumes x: "x = of_int m * 2 powi e" and m: "\<bar>m\<bar> < 2 ^ 53" and e: "- 1074 \<le> e"
  shows "fl64 x = x"
proof (cases "m = 0")
  case True
  then show ?thesis by (simp add: x fl64_def)
next
  case False
  have two: "(0::rat) < 2 powi e" by simp
  have ax: "\<bar>x\<bar> = of_int \<bar>m\<bar> * 2 powi e"
    by (simp add: x abs_mult)
  have pos: "0 < \<bar>x\<bar>" using False by (simp add: ax)
  define k where "k = ilog2 \<bar>x\<bar>"
  have kb: "2 powi k \<le> \<bar>x\<bar>" "\<bar>x\<bar> < 2 powi (k + 1)"
    using ilog2_bounds[OF pos] by (simp_all add: k_def)
  have "(of_int \<bar>m\<bar> :: rat) < 2 ^ 53"
    using m by (metis of_int_less_iff of_int_numeral of_int_power)
  then have "\<bar>x\<bar> < 2 ^ 53 * 2 powi e"
    unfolding ax using two by (simp add: mult_strict_right_mono)
  also have "\<dots> = 2 powi (53 + e)"
    by (simp add: power_int_add)
  finally have "(2::rat) powi k < 2 powi (53 + e)" using kb(1) by linarith
  then have "k < 53 + e"
    using powi_mono2[of "53 + e" k] by linarith
  define e' where "e' = max (k - 52) (- 1074)"
  have le: "e' \<le> e" using \<open>k < 53 + e\<close> e by (simp add: e'_def)
  have "x / 2 powi e' = of_int m * 2 powi (e - e')"
    by (simp add: x power_int_diff)
  also have "(2::rat) powi (e - e') = of_int (2 ^ nat (e - e'))"
    using le by (simp add: power_int_def)
  finally have q: "x / 2 powi e' = of_int (m * 2 ^ nat (e - e'))" by simp
  have "fl64 x = of_int (roundHalfEven (x / 2 powi e')) * 2 powi e'"
    using pos by (simp add: fl64_def Let_def e'_def k_def)
  also have "\<dots> = x / 2 powi e' * 2 powi e'"
    by (simp only: q roundHalfEven_of_int)
  also have "\<dots> = x" by simp
  finally show ?thesis .
qed

lemma fl64_of_int: "\<bar>i\<bar> < 2 ^ 53 \<Longrightarrow> fl64 (of_int i) = of_int i"
  using fl64_exact[of "of_int i" i 0] by simp

lemma fl64_half_int: "\<bar>2 * i + 1\<bar> < 2 ^ 53 \<Longrightarrow> fl64 (of_int i + 1 / 2) = of_int i + 1 / 2"
proof -
  assume a: "\<bar>2 * i + 1\<bar> < 2 ^ 53"
  have "(of_int i + 1 / 2 :: rat) = of_int (2 * i + 1) * 2 powi (- 1)"
    by (simp add: power_int_minus field_simps)
  with a show ?thesis using fl64_exact[of "of_int i + 1 / 2" "2 * i + 1" "- 1"] by simp
qed

lemma qRound_of_int32:
  assumes "- (2 ^ 31) \<le> i" and "i < 2 ^ 31"
  shows "qRound (of_int32 i) = i"
proof (cases "0 \<le> i")
  case True
  have "\<bar>2 * i + 1\<bar> < 2 ^ 53" using assms True by simp
  then have "dadd (of_int i) (1 / 2) = of_int i + 1 / 2"
    unfolding dadd_def by (rule fl64_half_int)
  moreover have "\<lfloor>of_int i + 1 / 2 :: rat\<rfloor> = i" by (simp add: floor_eq_iff)
  ultimately show ?thesis using True by (simp add: qRound_def of_int32_def to_int_def)
next
  case False
  then have neg: "i < 0" by simp
  have "\<bar>i - 1\<bar> < 2 ^ 53" using assms neg by simp
  then have a: "dsub (of_int i) 1 = of_int (i - 1)"
    unfolding dsub_def using fl64_of_int[of "i - 1"] by simp
  have b: "to_int (of_int (i - 1)) = i - 1"
    using neg by (simp add: to_int_def)
  have c: "dsub (of_int i) (of_int (i - 1)) = 1"
    unfolding dsub_def using fl64_of_int[of 1] by simp
  have d: "dadd 1 (1 / 2) = 1 + 1 / 2"
    unfolding dadd_def using fl64_half_int[of 1] by simp
  have e: "to_int (1 + 1 / 2) = 1"
    by (simp add: to_int_def floor_eq_iff)
  have "\<not> (0::rat) \<le> of_int i" using neg by simp
  then show ?thesis
    unfolding qRound_def of_int32_def
    by (simp only: if_False a b c d e)
qed

text \<open>
  The decimal digits of a number determine it, none of the printed fields contains a comma,
  and so the string of the key determines each of its fields: the key of a tile determines
  the page, the two resolutions, the six-digit print of the scale factor, the rotation, the
  inversion flag and the rectangle, and nothing else.
\<close>

lemma digit_char_digit: "d < 10 \<Longrightarrow> digit_char d \<in> set ''0123456789''"
  unfolding digit_char_def by (rule nth_mem) simp

lemma digit_char_inj: "a < 10 \<Longrightarrow> b < 10 \<Longrightarrow> digit_char a = digit_char b \<Longrightarrow> a = b"
  unfolding digit_char_def by (subst (asm) nth_eq_iff_index_eq) simp_all

lemma digits10_digits: "set (digits10 n) \<subseteq> set ''0123456789''"
proof (induction n rule: digits10.induct)
  case (1 n)
  show ?case
  proof (cases "n < 10")
    case True
    then show ?thesis using digit_char_digit[of n] by (simp add: digits10_small)
  next
    case False
    then have "set (digits10 (n div 10)) \<subseteq> set ''0123456789''" by (rule 1)
    moreover have "digit_char (n mod 10) \<in> set ''0123456789''"
      by (rule digit_char_digit) simp
    ultimately show ?thesis using False by (simp add: digits10_large)
  qed
qed

lemma digits10_nonempty: "digits10 n \<noteq> []"
  by (cases "n < 10") (simp_all add: digits10_small digits10_large)

lemma digits10_inj: "digits10 n = digits10 m \<Longrightarrow> n = m"
proof (induction n arbitrary: m rule: digits10.induct)
  case (1 n)
  show ?case
  proof (cases "n < 10")
    case n: True
    show ?thesis
    proof (cases "m < 10")
      case True
      with n 1(2) show ?thesis by (simp add: digits10_small digit_char_inj)
    next
      case False
      with n 1(2) digits10_nonempty[of "m div 10"] show ?thesis
        by (simp add: digits10_small digits10_large)
    qed
  next
    case n: False
    show ?thesis
    proof (cases "m < 10")
      case True
      with n 1(2) digits10_nonempty[of "n div 10"] show ?thesis
        by (simp add: digits10_small digits10_large)
    next
      case False
      with n 1(2) have eq: "digits10 (n div 10) = digits10 (m div 10)"
        "digit_char (n mod 10) = digit_char (m mod 10)"
        by (simp_all add: digits10_large)
      from eq(1) have "n div 10 = m div 10" using n by (intro 1(1)) simp_all
      moreover from eq(2) have "n mod 10 = m mod 10" by (intro digit_char_inj) simp_all
      ultimately show ?thesis by (metis div_mult_mod_eq)
    qed
  qed
qed

lemma fmt_d_inj: "fmt_d i = fmt_d j \<Longrightarrow> i = j"
proof -
  assume a: "fmt_d i = fmt_d j"
  have nd: "CHR ''-'' \<notin> set (digits10 n)" for n
    using digits10_digits[of n] by auto
  have hd: "CHR ''-'' # xs \<noteq> digits10 n" for xs n
    using nd[of n] by (metis list.set_intros(1))
  show ?thesis
  proof (cases "i < 0")
    case i: True
    show ?thesis
    proof (cases "j < 0")
      case True
      with i a have "nat (- i) = nat (- j)" by (simp add: fmt_d_def digits10_inj)
      with i True show ?thesis by simp
    next
      case False
      with i a hd show ?thesis by (simp add: fmt_d_def)
    qed
  next
    case i: False
    show ?thesis
    proof (cases "j < 0")
      case True
      with i a hd[of "digits10 (nat (- j))" "nat i"] show ?thesis by (simp add: fmt_d_def)
    next
      case False
      with i a have "nat i = nat j" by (simp add: fmt_d_def digits10_inj)
      with i False show ?thesis by simp
    qed
  qed
qed

lemma comma_notin_fmt_d: "CHR '','' \<notin> set (fmt_d i)"
  using digits10_digits[of "nat i"] digits10_digits[of "nat (- i)"]
  by (auto simp: fmt_d_def)

lemma comma_notin_fmt_f: "CHR '','' \<notin> set (fmt_f v)"
proof -
  have "CHR '','' \<notin> set (digits10 n)" for n
    using digits10_digits[of n] by auto
  then show ?thesis by (auto simp: fmt_f_def Let_def)
qed

lemma split_at_comma:
  assumes "CHR '','' \<notin> set a" and "CHR '','' \<notin> set a'"
    and "a @ CHR '','' # b = a' @ CHR '','' # b'"
  shows "a = a' \<and> b = b'"
  using assms
proof (induction a arbitrary: a')
  case Nil
  then show ?case by (cases a') auto
next
  case (Cons x xs)
  then show ?case by (cases a') auto
qed

lemma Rotation_value_inj: "Rotation_value r = Rotation_value r' \<Longrightarrow> r = r'"
  by (cases r; cases r') (simp_all add: Rotation_value_def)

lemma qRound_int32: "int32 i \<Longrightarrow> qRound (of_int32 i) = i"
  by (simp add: int32_def qRound_of_int32)

lemma fmt_d_comma_split:
  "fmt_d i @ CHR '','' # b = fmt_d j @ CHR '','' # b' \<Longrightarrow> i = j \<and> b = b'"
  using split_at_comma[OF comma_notin_fmt_d comma_notin_fmt_d, of i b j b'] fmt_d_inj by blast

lemma fmt_f_comma_split:
  "fmt_f v @ CHR '','' # b = fmt_f v' @ CHR '','' # b' \<Longrightarrow> fmt_f v = fmt_f v' \<and> b = b'"
  using split_at_comma[OF comma_notin_fmt_f comma_notin_fmt_f, of v b v' b'] by blast

lemma pixmapKey_eq_iff:
  assumes "QRect_ints (m_rect t)" and "QRect_ints (m_rect t')"
  shows "pixmapKey t = pixmapKey t' \<longleftrightarrow>
           page_addr (parentPage t) = page_addr (parentPage t')
         \<and> resolutionX (resolution (m_renderParam (parentPage t)))
             = resolutionX (resolution (m_renderParam (parentPage t')))
         \<and> resolutionY (resolution (m_renderParam (parentPage t)))
             = resolutionY (resolution (m_renderParam (parentPage t')))
         \<and> fmt_f (scaleFactor (m_renderParam (parentPage t)))
             = fmt_f (scaleFactor (m_renderParam (parentPage t')))
         \<and> rotation (m_renderParam (parentPage t)) = rotation (m_renderParam (parentPage t'))
         \<and> invertColors (m_renderParam (parentPage t))
             = invertColors (m_renderParam (parentPage t'))
         \<and> m_rect t = m_rect t'"
proof
  assume eq: "pixmapKey t = pixmapKey t'"
  have r: "qRound (of_int32 (rect_x (m_rect t))) = rect_x (m_rect t)"
    "qRound (of_int32 (rect_y (m_rect t))) = rect_y (m_rect t)"
    "qRound (of_int32 (rect_width (m_rect t))) = rect_width (m_rect t)"
    "qRound (of_int32 (rect_height (m_rect t))) = rect_height (m_rect t)"
    "qRound (of_int32 (rect_x (m_rect t'))) = rect_x (m_rect t')"
    "qRound (of_int32 (rect_y (m_rect t'))) = rect_y (m_rect t')"
    "qRound (of_int32 (rect_width (m_rect t'))) = rect_width (m_rect t')"
    "qRound (of_int32 (rect_height (m_rect t'))) = rect_height (m_rect t')"
    using assms by (simp_all add: QRect_ints_def qRound_int32)
  from eq have "page_addr (parentPage t) = page_addr (parentPage t')
         \<and> resolutionX (resolution (m_renderParam (parentPage t)))
             = resolutionX (resolution (m_renderParam (parentPage t')))
         \<and> resolutionY (resolution (m_renderParam (parentPage t)))
             = resolutionY (resolution (m_renderParam (parentPage t')))
         \<and> fmt_f (scaleFactor (m_renderParam (parentPage t)))
             = fmt_f (scaleFactor (m_renderParam (parentPage t')))
         \<and> Rotation_value (rotation (m_renderParam (parentPage t)))
             = Rotation_value (rotation (m_renderParam (parentPage t')))
         \<and> invertColors (m_renderParam (parentPage t))
             = invertColors (m_renderParam (parentPage t'))
         \<and> rect_x (m_rect t) = rect_x (m_rect t') \<and> rect_y (m_rect t) = rect_y (m_rect t')
         \<and> rect_width (m_rect t) = rect_width (m_rect t')
         \<and> rect_height (m_rect t) = rect_height (m_rect t')"
    unfolding pixmapKey_def Let_def r
    by (auto dest!: fmt_d_comma_split fmt_f_comma_split fmt_d_inj)
  then show "page_addr (parentPage t) = page_addr (parentPage t')
         \<and> resolutionX (resolution (m_renderParam (parentPage t)))
             = resolutionX (resolution (m_renderParam (parentPage t')))
         \<and> resolutionY (resolution (m_renderParam (parentPage t)))
             = resolutionY (resolution (m_renderParam (parentPage t')))
         \<and> fmt_f (scaleFactor (m_renderParam (parentPage t)))
             = fmt_f (scaleFactor (m_renderParam (parentPage t')))
         \<and> rotation (m_renderParam (parentPage t)) = rotation (m_renderParam (parentPage t'))
         \<and> invertColors (m_renderParam (parentPage t))
             = invertColors (m_renderParam (parentPage t'))
         \<and> m_rect t = m_rect t'"
    by (auto dest: Rotation_value_inj intro: QRect.equality)
next
  assume "page_addr (parentPage t) = page_addr (parentPage t')
         \<and> resolutionX (resolution (m_renderParam (parentPage t)))
             = resolutionX (resolution (m_renderParam (parentPage t')))
         \<and> resolutionY (resolution (m_renderParam (parentPage t)))
             = resolutionY (resolution (m_renderParam (parentPage t')))
         \<and> fmt_f (scaleFactor (m_renderParam (parentPage t)))
             = fmt_f (scaleFactor (m_renderParam (parentPage t')))
         \<and> rotation (m_renderParam (parentPage t)) = rotation (m_renderParam (parentPage t'))
         \<and> invertColors (m_renderParam (parentPage t))
             = invertColors (m_renderParam (parentPage t'))
         \<and> m_rect t = m_rect t'"
  then show "pixmapKey t = pixmapKey t'"
    by (simp add: pixmapKey_def Let_def)
qed

lemma pixmapKey_devicePixelRatio:
  "pixmapKey (t\<lparr>parentPage := (parentPage t)\<lparr>m_renderParam :=
      (m_renderParam (parentPage t))\<lparr>resolution :=
        (resolution (m_renderParam (parentPage t)))\<lparr>devicePixelRatio := d\<rparr>\<rparr>\<rparr>\<rparr>) = pixmapKey t"
  by (simp add: pixmapKey_def Let_def)

text \<open>
  C1 at a failing input. The key of a tile is its page and the string printed from the two
  resolutions, the scale factor with six digits after the point, the rotation, the inversion
  flag and the rectangle. The device pixel ratio is not printed: two tiles of one page and one
  rectangle that differ in the device pixel ratio alone (1 and 2), and are therefore rendered
  at different resolutions (72 and 144), have the same key. So have two tiles whose scale
  factors 1 and \<open>1 + 2\<^sup>-\<^sup>2\<^sup>2\<close> differ by less than the six digits show.
\<close>

theorem pixmapKey_collision:
  "pixmapKey exampleTile = (1, ''72,72,1.000000,0,0,0,0,256,256'')
   \<and> pixmapKey exampleTile2x = pixmapKey exampleTile
   \<and> devicePixelRatio (resolution (m_renderParam (parentPage exampleTile))) = 1
   \<and> devicePixelRatio (resolution (m_renderParam (parentPage exampleTile2x))) = 2
   \<and> exampleTile2x = exampleTile\<lparr>parentPage := (parentPage exampleTile)\<lparr>m_renderParam :=
        (m_renderParam (parentPage exampleTile))\<lparr>resolution :=
          (resolution (m_renderParam (parentPage exampleTile)))\<lparr>devicePixelRatio := 2\<rparr>\<rparr>\<rparr>\<rparr>
   \<and> scaledResolutionX (m_renderParam (parentPage exampleTile)) = 72
   \<and> scaledResolutionX (m_renderParam (parentPage exampleTile2x)) = 144
   \<and> pixmapKey exampleTileZoomed = pixmapKey exampleTile
   \<and> scaleFactor (m_renderParam (parentPage exampleTileZoomed))
       \<noteq> scaleFactor (m_renderParam (parentPage exampleTile))"
proof -
  have k2: "pixmapKey exampleTile2x = pixmapKey exampleTile"
    by (simp add: pixmapKey_def exampleTile2x_def exampleTile_def examplePageItem_def exampleParam_def)
  have kz: "pixmapKey exampleTileZoomed = pixmapKey exampleTile"
    by (simp add: pixmapKey_def exampleTileZoomed_def exampleTile_def examplePageItem_def
        exampleParam_def fmt_f_1 fmt_f_zoomed)
  have s1: "scaledResolutionX (m_renderParam (parentPage exampleTile)) = 72"
    using scaled_1x by (simp add: exampleTile_def examplePageItem_def)
  have rest: "devicePixelRatio (resolution (m_renderParam (parentPage exampleTile))) = 1"
    "devicePixelRatio (resolution (m_renderParam (parentPage exampleTile2x))) = 2"
    "exampleTile2x = exampleTile\<lparr>parentPage := (parentPage exampleTile)\<lparr>m_renderParam :=
        (m_renderParam (parentPage exampleTile))\<lparr>resolution :=
          (resolution (m_renderParam (parentPage exampleTile)))\<lparr>devicePixelRatio := 2\<rparr>\<rparr>\<rparr>\<rparr>"
    "scaleFactor (m_renderParam (parentPage exampleTileZoomed))
       \<noteq> scaleFactor (m_renderParam (parentPage exampleTile))"
    by (simp_all add: exampleTile2x_def exampleTileZoomed_def exampleTile_def examplePageItem_def
        exampleParam_def)
  from pixmapKey_exampleTile k2 kz s1 scaled_2x rest show ?thesis by blast
qed

end
